theory Spec2Isabelle
  imports Main "HOL-Library.AList"
begin

section \<open>The persistent shell session manager\<close>

text \<open>
  This theory embeds the class \<open>ShellSessionManager\<close> (the second module stored in
  \<^verbatim>\<open>server/utils/claude-config.js\<close>, imported by \<^verbatim>\<open>server/index.js\<close> as
  \<^verbatim>\<open>shell-manager.js\<close>) and proves properties of its methods and event handlers.

  The manager owns a JavaScript \<open>Map\<close> from session keys to \<open>sessionData\<close> objects.
  The objects are shared by reference between the map, the \<open>onData\<close> closure of the
  process and the closure of the graceful-kill timer, so the model keeps them in a store
  (\<open>objs\<close>) addressed by a reference and lets the map hold references. Every method
  takes the state of the world and returns its result together with the new state.
  Values that the environment supplies (the clock, the outcome of \<open>pty.spawn\<close>, the
  regular-expression engine) are parameters. Of the calls into node-pty, \<open>pty.spawn\<close>
  and \<open>resize\<close> can throw; \<open>write\<close> and \<open>kill\<close> and the calls into the WebSocket
  library return normally. A session is created with one reading of the clock.
\<close>

subsection \<open>Data\<close>

type_synonym time = int
  \<comment> \<open>a \<open>Date\<close>, as its number of milliseconds\<close>

type_synonym ref = nat
  \<comment> \<open>identity of a \<open>sessionData\<close> object and of the \<open>ptyProcess\<close> it was created with\<close>

type_synonym wsid = nat
  \<comment> \<open>identity of a WebSocket object\<close>

datatype signal = SIGKILL | DefaultSignal
  \<comment> \<open>\<open>kill('SIGKILL')\<close> and \<open>kill()\<close>\<close>

text \<open>
  A terminal size as a caller passes it. The callers in \<^verbatim>\<open>server/index.js\<close> take it
  from a client message (\<open>data.cols || 80\<close>), so it can be any number, also a negative
  one, or a value that is no number at all.
\<close>

datatype dim = Num int | NotNum

definition positive :: "dim \<Rightarrow> bool" where
  "positive d = (case d of Num n \<Rightarrow> 0 < n | NotNum \<Rightarrow> False)"

text \<open>
  The node-pty handle. The model records what was asked of the process (\<open>written\<close>,
  \<open>signals\<close>, the last size). \<open>write\<close> and \<open>kill\<close> are fire-and-forget; \<open>resize\<close>
  throws unless both sizes are positive numbers, and then changes nothing.
\<close>

record pty =
  pid :: nat
  ptyFile :: string
  ptyArgs :: "string list"
  ptyCols :: dim
  ptyRows :: dim
  written :: "string list"
  signals :: "signal list"

definition ptyWrite :: "string \<Rightarrow> pty \<Rightarrow> pty" where
  "ptyWrite d p = p\<lparr>written := written p @ [d]\<rparr>"

definition ptyResize :: "dim \<Rightarrow> dim \<Rightarrow> pty \<Rightarrow> pty option" where
  "ptyResize c r p =
     (if positive c \<and> positive r then Some (p\<lparr>ptyCols := c, ptyRows := r\<rparr>) else None)"

definition ptyKill :: "signal \<Rightarrow> pty \<Rightarrow> pty" where
  "ptyKill sg p = p\<lparr>signals := signals p @ [sg]\<rparr>"

record entry =
  data :: string
  timestamp :: time

record SessionData =
  ptyProcess :: pty
  outputBuffer :: "entry list"
  projectPath :: string
  sessionId :: "string option"
  reconnectedSessionId :: "string option"
  createdAt :: time
  lastActiveAt :: time
  isConnected :: bool
  currentWs :: "wsid option"
  cols :: dim
  rows :: dim

text \<open>A WebSocket: its \<open>readyState\<close> and the messages passed to \<open>send\<close>, in order.\<close>

datatype readyState = CONNECTING | OPEN | CLOSING | CLOSED

datatype ws_msg = Output string | UrlOpen string
  \<comment> \<open>\<open>{type: 'output', data}\<close> and \<open>{type: 'url_open', url}\<close>\<close>

record websocket =
  readyState :: readyState
  sent :: "ws_msg list"

definition wsClose :: "websocket \<Rightarrow> websocket" where
  "wsClose s = (if readyState s = CLOSED then s else s\<lparr>readyState := CLOSING\<rparr>)"

text \<open>A pending \<open>setTimeout\<close> of \<open>killSession\<close>, with the variables its closure captured.\<close>

record timer =
  delay :: nat
  timerKey :: string
  timerSession :: ref

record world =
  sessions :: "(string \<times> ref) list"
    \<comment> \<open>\<open>this.sessions\<close>: a \<open>Map\<close> in insertion order, keys distinct\<close>
  objs :: "ref \<Rightarrow> SessionData"
  nextRef :: ref
    \<comment> \<open>number of \<open>pty.spawn\<close> calls that returned so far\<close>
  sockets :: "wsid \<Rightarrow> websocket"
  timers :: "timer list"
  cleanupInterval :: bool

definition updSession :: "ref \<Rightarrow> (SessionData \<Rightarrow> SessionData) \<Rightarrow> world \<Rightarrow> world" where
  "updSession session f w = w\<lparr>objs := (objs w)(session := f (objs w session))\<rparr>"

definition updSocket :: "wsid \<Rightarrow> (websocket \<Rightarrow> websocket) \<Rightarrow> world \<Rightarrow> world" where
  "updSocket ws f w = w\<lparr>sockets := (sockets w)(ws := f (sockets w ws))\<rparr>"

subsection \<open>Session keys\<close>

text \<open>\<^verbatim>\<open>`project-${projectPath.replace(/[/\\]/g, '_')}`\<close>\<close>

definition replaceSeparators :: "string \<Rightarrow> string" where
  "replaceSeparators s = map (\<lambda>c. if c = CHR ''/'' \<or> c = CHR 0x5C then CHR ''_'' else c) s"

definition generateSessionKey :: "string \<Rightarrow> string" where
  "generateSessionKey P = ''project-'' @ replaceSeparators P"

subsection \<open>Creating or reusing a session\<close>

datatype spawn_result = Spawned nat | SpawnThrows
  \<comment> \<open>\<open>pty.spawn\<close> returns a handle (with the pid the system gave) or throws\<close>

datatype error = SpawnError | ResizeError
  \<comment> \<open>the exception of \<open>pty.spawn\<close> and the one of \<open>ptyProcess.resize\<close>\<close>

definition truthy :: "string option \<Rightarrow> bool" where
  "truthy x = (case x of None \<Rightarrow> False | Some s \<Rightarrow> s \<noteq> [])"

definition startCommand :: "string option \<Rightarrow> string" where
  "startCommand sid =
     (if truthy sid then ''claude --resume '' @ (case sid of Some s \<Rightarrow> s | None \<Rightarrow> [])
      else ''claude'')"

definition newSessionData ::
  "nat \<Rightarrow> time \<Rightarrow> string \<Rightarrow> string option \<Rightarrow> dim \<Rightarrow> dim \<Rightarrow> SessionData" where
  "newSessionData p now P sid c r =
     \<lparr>ptyProcess =
        \<lparr>pid = p, ptyFile = ''bash'',
         ptyArgs = [''-c'', ''cd \"'' @ P @ ''\" && '' @ startCommand sid],
         ptyCols = c, ptyRows = r, written = [], signals = []\<rparr>,
      outputBuffer = [],
      projectPath = P,
      sessionId = sid,
      reconnectedSessionId = sid,
      createdAt = now,
      lastActiveAt = now,
      isConnected = False,
      currentWs = None,
      cols = c,
      rows = r\<rparr>"

text \<open>
  \<open>getOrCreateSession\<close> is an \<open>async\<close> function with one suspension point,
  \<open>await generateClaudeEnvVars()\<close>, between the test \<open>this.sessions.has(sessionKey)\<close>
  and the spawn.

  \<open>getOrCreateSession_start\<close> is the call up to that point. When the map holds a session
  under the key, the call ends there: \<open>lastActiveAt\<close> is set, then the process is resized,
  and the exception of \<open>resize\<close>, which nothing catches, is the result of the call. When
  the map holds none, the call is suspended and has changed nothing.
\<close>

datatype 'a started = Finished 'a | Suspended

definition getOrCreateSession_start ::
  "time \<Rightarrow> string \<Rightarrow> dim \<Rightarrow> dim \<Rightarrow> world \<Rightarrow> (error + ref \<times> bool) started \<times> world" where
  "getOrCreateSession_start now P c r w =
     (let sessionKey = generateSessionKey P in
      case map_of (sessions w) sessionKey of
        Some session \<Rightarrow>
          (let w1 = updSession session (\<lambda>s. s\<lparr>lastActiveAt := now\<rparr>) w in
           case ptyResize c r (ptyProcess (objs w1 session)) of
             None \<Rightarrow> (Finished (Inl ResizeError), w1)
           | Some p \<Rightarrow>
               (Finished (Inr (session, False)),
                updSession session (\<lambda>s. s\<lparr>ptyProcess := p\<rparr>) w1))
      | None \<Rightarrow> (Suspended, w))"

text \<open>
  \<open>getOrCreateSession_resume\<close> is the rest of a suspended call, from the \<open>await\<close> on: it
  spawns, builds the session object and stores it with \<open>this.sessions.set\<close>, which
  replaces whatever the map holds under the key by then. The environment variables that
  the awaited function returns are passed to the process and play no other role.
\<close>

definition getOrCreateSession_resume ::
  "spawn_result \<Rightarrow> time \<Rightarrow> string \<Rightarrow> string option \<Rightarrow> dim \<Rightarrow> dim \<Rightarrow> world
     \<Rightarrow> (error + ref \<times> bool) \<times> world" where
  "getOrCreateSession_resume sp now P sid c r w =
     (case sp of
        SpawnThrows \<Rightarrow> (Inl SpawnError, w)
      | Spawned p \<Rightarrow>
          let session = nextRef w in
          (Inr (session, True),
           w\<lparr>sessions := AList.update (generateSessionKey P) session (sessions w),
             objs := (objs w)(session := newSessionData p now P sid c r),
             nextRef := Suc session\<rparr>))"

text \<open>
  An awaited call of \<open>getOrCreateSession\<close> with nothing else running while it is
  suspended. The result is the session (its reference) and \<open>isNew\<close>, or an exception.
\<close>

definition getOrCreateSession ::
  "spawn_result \<Rightarrow> time \<Rightarrow> string \<Rightarrow> string option \<Rightarrow> dim \<Rightarrow> dim \<Rightarrow> world
     \<Rightarrow> (error + ref \<times> bool) \<times> world" where
  "getOrCreateSession sp now P sid c r w =
     (case getOrCreateSession_start now P c r w of
        (Finished res, w1) \<Rightarrow> (res, w1)
      | (Suspended, w1) \<Rightarrow> getOrCreateSession_resume sp now P sid c r w1)"

subsection \<open>Sending to a WebSocket, with URL detection\<close>

text \<open>
  The six patterns of \<open>sendToWebSocket\<close> are JavaScript regular expressions. Their
  matching is the engine's: \<open>execAll\<close> gives the successive results of
  \<open>pattern.exec(data)\<close> until \<open>null\<close>, each as \<open>(match[0], match[1])\<close>, and
  \<open>replaceFirst\<close> is \<open>String.prototype.replace\<close> with a string pattern.
\<close>

record regexp =
  source :: string
  flags :: string

record js =
  execAll :: "regexp \<Rightarrow> string \<Rightarrow> (string \<times> string) list"
  replaceFirst :: "string \<Rightarrow> string \<Rightarrow> string \<Rightarrow> string"

definition urlGroup :: string where
  "urlGroup = ''(https?:'' @ [CHR 0x5C] @ ''/'' @ [CHR 0x5C] @ ''/[^'' @ [CHR 0x5C] @ ''s''
     @ [CHR 0x5C] @ ''x1b'' @ [CHR 0x5C] @ ''x07]+)''"

definition patterns :: "regexp list" where
  "patterns =
     [\<lparr>source = ''(?:xdg-open|open|start)'' @ [CHR 0x5C] @ ''s+'' @ urlGroup, flags = ''g''\<rparr>,
      \<lparr>source = ''OPEN_URL:'' @ [CHR 0x5C] @ ''s*'' @ urlGroup, flags = ''g''\<rparr>,
      \<lparr>source = ''Opening'' @ [CHR 0x5C] @ ''s+'' @ urlGroup, flags = ''gi''\<rparr>,
      \<lparr>source = ''Visit:'' @ [CHR 0x5C] @ ''s*'' @ urlGroup, flags = ''gi''\<rparr>,
      \<lparr>source = ''View at:'' @ [CHR 0x5C] @ ''s*'' @ urlGroup, flags = ''gi''\<rparr>,
      \<lparr>source = ''Browse to:'' @ [CHR 0x5C] @ ''s*'' @ urlGroup, flags = ''gi''\<rparr>]"

fun includesStr :: "string \<Rightarrow> string \<Rightarrow> bool" where
  "includesStr [] sub = (sub = [])"
| "includesStr (c # cs) sub = (take (length sub) (c # cs) = sub \<or> includesStr cs sub)"

definition openingText :: "string \<Rightarrow> string" where
  "openingText url = [CHR 0xF0, CHR 0x9F, CHR 0x8C, CHR 0x90] @ '' Opening in browser: '' @ url"

text \<open>The \<open>while\<close> loop over the matches of one pattern.\<close>

fun scanMatches ::
  "js \<Rightarrow> regexp \<Rightarrow> (string \<times> string) list \<Rightarrow> ws_msg list \<times> string \<Rightarrow> ws_msg list \<times> string" where
  "scanMatches J p [] acc = acc"
| "scanMatches J p ((m0, url) # ms) (out, outputData) =
     scanMatches J p ms
       (out @ [UrlOpen url],
        if includesStr (source p) ''OPEN_URL''
        then replaceFirst J outputData m0 (openingText url) else outputData)"

text \<open>
  The \<open>forEach\<close> over the patterns: the \<open>url_open\<close> messages sent on the way and the
  final \<open>outputData\<close>.
\<close>

definition scan :: "js \<Rightarrow> string \<Rightarrow> ws_msg list \<times> string" where
  "scan J d = foldl (\<lambda>acc p. scanMatches J p (execAll J p d) acc) ([], d) patterns"

text \<open>Everything one call passes to \<open>ws.send\<close> on an open socket.\<close>

definition messages :: "js \<Rightarrow> string \<Rightarrow> ws_msg list" where
  "messages J d = fst (scan J d) @ [Output (snd (scan J d))]"

definition sendToWebSocket :: "js \<Rightarrow> wsid \<Rightarrow> string \<Rightarrow> world \<Rightarrow> world" where
  "sendToWebSocket J ws d w =
     (if readyState (sockets w ws) \<noteq> OPEN then w
      else updSocket ws (\<lambda>s. s\<lparr>sent := sent s @ messages J d\<rparr>) w)"

subsection \<open>Attaching and detaching a WebSocket\<close>

fun showNat :: "nat \<Rightarrow> string" where
  "showNat n =
     (if n < 10 then [''0123456789'' ! n]
      else showNat (n div 10) @ [''0123456789'' ! (n mod 10)])"

definition restoringMarker :: "nat \<Rightarrow> string" where
  "restoringMarker n =
     [CHR 0x0D, CHR 0x0A, CHR 0x1B] @ ''[2m--- Restoring previous output ('' @ showNat n
       @ '' entries) ---'' @ [CHR 0x1B] @ ''[0m'' @ [CHR 0x0D, CHR 0x0A]"

definition endMarker :: string where
  "endMarker =
     [CHR 0x0D, CHR 0x0A, CHR 0x1B] @ ''[2m--- End previous output ---'' @ [CHR 0x1B] @ ''[0m''
       @ [CHR 0x0D, CHR 0x0A]"

definition replayRecentOutput :: "js \<Rightarrow> ref \<Rightarrow> wsid \<Rightarrow> world \<Rightarrow> world" where
  "replayRecentOutput J session ws w =
     (let buf = outputBuffer (objs w session) in
      if length buf = 0 then w
      else
        let w1 = sendToWebSocket J ws (restoringMarker (length buf)) w;
            w2 = foldl (\<lambda>w' item. sendToWebSocket J ws (data item) w') w1 buf
        in sendToWebSocket J ws endMarker w2)"

definition attachWebSocket :: "js \<Rightarrow> time \<Rightarrow> string \<Rightarrow> wsid \<Rightarrow> world \<Rightarrow> bool \<times> world" where
  "attachWebSocket J now P ws w =
     (let sessionKey = generateSessionKey P in
      case map_of (sessions w) sessionKey of
        None \<Rightarrow> (False, w)
      | Some session \<Rightarrow>
          let w1 = (case currentWs (objs w session) of
                      Some old \<Rightarrow>
                        if isConnected (objs w session) then updSocket old wsClose w else w
                    | None \<Rightarrow> w);
              w2 = updSession session
                     (\<lambda>s. s\<lparr>isConnected := True, currentWs := Some ws, lastActiveAt := now\<rparr>) w1
          in (True, replayRecentOutput J session ws w2))"

definition detachWebSocket :: "time \<Rightarrow> string \<Rightarrow> world \<Rightarrow> bool \<times> world" where
  "detachWebSocket now P w =
     (let sessionKey = generateSessionKey P in
      case map_of (sessions w) sessionKey of
        Some session \<Rightarrow>
          (True,
           updSession session
             (\<lambda>s. s\<lparr>isConnected := False, currentWs := None, lastActiveAt := now\<rparr>) w)
      | None \<Rightarrow> (False, w))"

subsection \<open>Input and resizing\<close>

definition writeToSession :: "time \<Rightarrow> string \<Rightarrow> string \<Rightarrow> world \<Rightarrow> bool \<times> world" where
  "writeToSession now P d w =
     (let sessionKey = generateSessionKey P in
      case map_of (sessions w) sessionKey of
        Some session \<Rightarrow>
          (True,
           updSession session
             (\<lambda>s. s\<lparr>ptyProcess := ptyWrite d (ptyProcess s), lastActiveAt := now\<rparr>) w)
      | None \<Rightarrow> (False, w))"

text \<open>
  \<open>resizeSession\<close> resizes the process first; when \<open>resize\<close> throws, the exception
  leaves the function and nothing was written.
\<close>

definition resizeSession ::
  "time \<Rightarrow> string \<Rightarrow> dim \<Rightarrow> dim \<Rightarrow> world \<Rightarrow> (error + bool) \<times> world" where
  "resizeSession now P c r w =
     (let sessionKey = generateSessionKey P in
      case map_of (sessions w) sessionKey of
        Some session \<Rightarrow>
          (case ptyResize c r (ptyProcess (objs w session)) of
             None \<Rightarrow> (Inl ResizeError, w)
           | Some p \<Rightarrow>
               (Inr True,
                updSession session
                  (\<lambda>s. s\<lparr>ptyProcess := p, cols := c, rows := r, lastActiveAt := now\<rparr>) w))
      | None \<Rightarrow> (Inr False, w))"

subsection \<open>Terminating a session\<close>

definition exitLine :: string where
  "exitLine = ''exit'' @ [CHR 0x0D]"

definition killSession :: "string \<Rightarrow> bool \<Rightarrow> world \<Rightarrow> bool \<times> world" where
  "killSession P force w =
     (let sessionKey = generateSessionKey P in
      case map_of (sessions w) sessionKey of
        None \<Rightarrow> (True, w)
      | Some session \<Rightarrow>
          let w1 = (if force
                    then updSession session
                           (\<lambda>s. s\<lparr>ptyProcess := ptyKill SIGKILL (ptyProcess s)\<rparr>) w
                    else (updSession session
                            (\<lambda>s. s\<lparr>ptyProcess := ptyWrite exitLine (ptyProcess s)\<rparr>) w)
                         \<lparr>timers := timers w
                            @ [\<lparr>delay = 5000, timerKey = sessionKey, timerSession = session\<rparr>]\<rparr>)
          in (True, w1\<lparr>sessions := AList.delete sessionKey (sessions w1)\<rparr>))"

text \<open>The callback of the timer armed by \<open>killSession\<close>, run when the timer fires.\<close>

definition timerFired :: "timer \<Rightarrow> world \<Rightarrow> world" where
  "timerFired t w =
     (let w1 = w\<lparr>timers := remove1 t (timers w)\<rparr> in
      if map_of (sessions w1) (timerKey t) \<noteq> None
      then updSession (timerSession t) (\<lambda>s. s\<lparr>ptyProcess := ptyKill SIGKILL (ptyProcess s)\<rparr>) w1
      else w1)"

subsection \<open>Status\<close>

record status_info =
  stSessionKey :: string
  stIsConnected :: bool
  stCreatedAt :: time
  stLastActiveAt :: time
  stProjectPath :: string
  stSessionId :: "string option"
  stReconnectedSessionId :: "string option"
  stProcessId :: nat
  stBufferSize :: nat
  stCols :: dim
  stRows :: dim

datatype status = Missing string | Found status_info
  \<comment> \<open>\<open>{exists: false, sessionKey}\<close> and \<open>{exists: true, sessionKey, ...}\<close>\<close>

definition statusExists :: "status \<Rightarrow> bool" where
  "statusExists st = (case st of Missing k \<Rightarrow> False | Found i \<Rightarrow> True)"

definition statusConnected :: "status \<Rightarrow> bool option" where
  "statusConnected st = (case st of Missing k \<Rightarrow> None | Found i \<Rightarrow> Some (stIsConnected i))"

definition getSessionStatus :: "string \<Rightarrow> world \<Rightarrow> status \<times> world" where
  "getSessionStatus P w =
     (let sessionKey = generateSessionKey P in
      case map_of (sessions w) sessionKey of
        None \<Rightarrow> (Missing sessionKey, w)
      | Some session \<Rightarrow>
          (let s = objs w session in
           (Found \<lparr>stSessionKey = sessionKey,
                   stIsConnected = isConnected s,
                   stCreatedAt = createdAt s,
                   stLastActiveAt = lastActiveAt s,
                   stProjectPath = projectPath s,
                   stSessionId = sessionId s,
                   stReconnectedSessionId = reconnectedSessionId s,
                   stProcessId = pid (ptyProcess s),
                   stBufferSize = length (outputBuffer s),
                   stCols = cols s,
                   stRows = rows s\<rparr>, w)))"

definition getAllSessions :: "world \<Rightarrow> (string \<times> status) list" where
  "getAllSessions w =
     map (\<lambda>(key, session). (key, fst (getSessionStatus (projectPath (objs w session)) w)))
       (sessions w)"

subsection \<open>Process events\<close>

text \<open>\<open>slice(-n)\<close>: the last \<open>n\<close> elements, or all of them when there are fewer.\<close>

definition sliceLast :: "nat \<Rightarrow> 'a list \<Rightarrow> 'a list" where
  "sliceLast n xs = drop (length xs - n) xs"

text \<open>The \<open>onData\<close> handler of the process of \<open>session\<close>, called with a chunk of output.\<close>

definition onData :: "js \<Rightarrow> time \<Rightarrow> ref \<Rightarrow> string \<Rightarrow> world \<Rightarrow> world" where
  "onData J now session d w =
     (let w1 = updSession session
                 (\<lambda>s. s\<lparr>outputBuffer := outputBuffer s @ [\<lparr>data = d, timestamp = now\<rparr>]\<rparr>) w;
          w2 = (if length (outputBuffer (objs w1 session)) > 1000
                then updSession session
                       (\<lambda>s. s\<lparr>outputBuffer := sliceLast 800 (outputBuffer s)\<rparr>) w1
                else w1)
      in case currentWs (objs w2 session) of
           Some ws \<Rightarrow> if isConnected (objs w2 session) then sendToWebSocket J ws d w2 else w2
         | None \<Rightarrow> w2)"

text \<open>
  The \<open>onExit\<close> handler of the process of \<open>session\<close>. Its closure holds the key computed
  from the project path the session was created with; the exit code is only logged.
\<close>

definition onExit :: "ref \<Rightarrow> int \<Rightarrow> world \<Rightarrow> world" where
  "onExit session exitCode w =
     w\<lparr>sessions := AList.delete (generateSessionKey (projectPath (objs w session))) (sessions w)\<rparr>"

subsection \<open>The idle reaper and shutdown\<close>

definition reapKey :: "string \<Rightarrow> world \<Rightarrow> world" where
  "reapKey key w =
     (let w1 = (case map_of (sessions w) key of
                  Some session \<Rightarrow>
                    updSession session
                      (\<lambda>s. s\<lparr>ptyProcess := ptyKill DefaultSignal (ptyProcess s)\<rparr>) w
                | None \<Rightarrow> w)
      in w1\<lparr>sessions := AList.delete key (sessions w1)\<rparr>)"

definition inactive :: "time \<Rightarrow> SessionData \<Rightarrow> bool" where
  "inactive now s = (lastActiveAt s < now - 2 * 60 * 60 * 1000 \<and> \<not> isConnected s)"

definition cleanupInactiveSessions :: "time \<Rightarrow> world \<Rightarrow> world" where
  "cleanupInactiveSessions now w =
     (let sessionsToDelete =
            map fst (filter (\<lambda>(key, session). inactive now (objs w session)) (sessions w))
      in if length sessionsToDelete > 0
         then foldl (\<lambda>w' key. reapKey key w') w sessionsToDelete
         else w)"

definition cleanup :: "world \<Rightarrow> world" where
  "cleanup w =
     (let w1 = (if cleanupInterval w then w\<lparr>cleanupInterval := False\<rparr> else w);
          w2 = foldl (\<lambda>w' (key, session).
                        updSession session
                          (\<lambda>s. s\<lparr>ptyProcess := ptyKill DefaultSignal (ptyProcess s)\<rparr>) w')
                 w1 (sessions w1)
      in w2\<lparr>sessions := []\<rparr>)"

subsection \<open>The manager at start-up\<close>

definition blankSession :: SessionData where
  "blankSession = newSessionData 0 0 [] None (Num 0) (Num 0)"

text \<open>
  The state after the constructor: an empty map and the reaper interval armed. No process
  was spawned yet, and the sockets that will connect are open and have received nothing.
\<close>

definition constructor :: world where
  "constructor =
     \<lparr>sessions = [], objs = (\<lambda>session. blankSession), nextRef = 0,
      sockets = (\<lambda>ws. \<lparr>readyState = OPEN, sent = []\<rparr>), timers = [], cleanupInterval = True\<rparr>"

subsection \<open>Runs of the manager\<close>

text \<open>
  Everything that can happen to the manager: a call of one of its methods, an event of a
  process, a timer firing. \<open>GetOrCreate\<close> is a call of \<open>getOrCreateSession\<close> that runs
  to its end undisturbed; a call that was suspended while other things happened is the
  later event \<open>Resume\<close>.
\<close>

datatype event =
    GetOrCreate spawn_result time string "string option" dim dim
  | Resume spawn_result time string "string option" dim dim
  | Attach time string wsid
  | Detach time string
  | Write time string string
  | Resize time string dim dim
  | Kill string bool
  | Status string
  | Reap time
  | Shutdown
  | Data time ref string
  | Exit ref int
  | Timer timer

fun step :: "js \<Rightarrow> event \<Rightarrow> world \<Rightarrow> world" where
  "step J (GetOrCreate sp now P sid c r) w = snd (getOrCreateSession sp now P sid c r w)"
| "step J (Resume sp now P sid c r) w = snd (getOrCreateSession_resume sp now P sid c r w)"
| "step J (Attach now P ws) w = snd (attachWebSocket J now P ws w)"
| "step J (Detach now P) w = snd (detachWebSocket now P w)"
| "step J (Write now P d) w = snd (writeToSession now P d w)"
| "step J (Resize now P c r) w = snd (resizeSession now P c r w)"
| "step J (Kill P force) w = snd (killSession P force w)"
| "step J (Status P) w = snd (getSessionStatus P w)"
| "step J (Reap now) w = cleanupInactiveSessions now w"
| "step J Shutdown w = cleanup w"
| "step J (Data now session d) w = onData J now session d w"
| "step J (Exit session exitCode) w = onExit session exitCode w"
| "step J (Timer t) w = timerFired t w"

definition run :: "js \<Rightarrow> event list \<Rightarrow> world \<Rightarrow> world" where
  "run J evs w = foldl (\<lambda>w' e. step J e w') w evs"

text \<open>The transports a session is bound to, and the agreement of its two fields.\<close>

definition boundTransports :: "SessionData \<Rightarrow> wsid set" where
  "boundTransports s = {t. isConnected s \<and> currentWs s = Some t}"

definition bindingOk :: "SessionData \<Rightarrow> bool" where
  "bindingOk s = (isConnected s = (currentWs s \<noteq> None))"

definition allBindingsOk :: "world \<Rightarrow> bool" where
  "allBindingsOk w = (\<forall>session. bindingOk (objs w session))"

text \<open>
  The map has one entry per key, no two keys share a session object, and every
  registered object was created.
\<close>

definition wf :: "world \<Rightarrow> bool" where
  "wf w = (distinct (map fst (sessions w)) \<and> distinct (map snd (sessions w))
           \<and> (\<forall>session \<in> set (map snd (sessions w)). session < nextRef w))"

text \<open>No session holds more than 1000 entries of output.\<close>

definition buffersBounded :: "world \<Rightarrow> bool" where
  "buffersBounded w = (\<forall>session. length (outputBuffer (objs w session)) \<le> 1000)"

definition isOutput :: "ws_msg \<Rightarrow> bool" where
  "isOutput m = (case m of Output d \<Rightarrow> True | UrlOpen u \<Rightarrow> False)"

subsection \<open>Example states\<close>

text \<open>The engine's answers on data in which no pattern matches.\<close>

definition noMatch :: js where
  "noMatch = \<lparr>execAll = (\<lambda>p d. []), replaceFirst = (\<lambda>s m r. s)\<rparr>"

text \<open>One session, for \<open>/proj/a\<close>, just created.\<close>

definition demoWorld :: world where
  "demoWorld = snd (getOrCreateSession (Spawned 4242) 1000 ''/proj/a'' None (Num 80) (Num 24) constructor)"

text \<open>The same session with the socket \<open>7\<close> attached.\<close>

definition boundWorld :: world where
  "boundWorld = snd (attachWebSocket noMatch 2000 ''/proj/a'' 7 demoWorld)"

text \<open>The same session after two chunks of output, nobody attached.\<close>

definition bufferedWorld :: world where
  "bufferedWorld = onData noMatch 1200 0 ''world'' (onData noMatch 1100 0 ''hello'' demoWorld)"

text \<open>The same session after a thousand chunks of output, nobody attached.\<close>

definition fullWorld :: world where
  "fullWorld =
     run noMatch (map (\<lambda>(t, d). Data t 0 d) (replicate 1000 (1100, ''x''))) demoWorld"

text \<open>
  Two sessions created at time 1000: the one for \<open>/proj/a\<close> with nobody attached, the one
  for \<open>/proj/b\<close> with the socket \<open>7\<close> attached at time 2000.
\<close>

definition twoWorld :: world where
  "twoWorld =
     snd (attachWebSocket noMatch 2000 ''/proj/b'' 7
       (snd (getOrCreateSession (Spawned 4243) 1000 ''/proj/b'' None (Num 80) (Num 24) demoWorld)))"

section \<open>Properties\<close>

subsection \<open>Basic facts about the operations\<close>

lemma map_of_update_same: "map_of (AList.update k v al) k = Some v"
  by (simp add: update_conv')

lemma map_of_delete_same: "map_of (AList.delete k al) k = None"
  by (simp add: delete_conv')

lemma demoWorld_eq:
  "demoWorld = constructor\<lparr>sessions := [(''project-_proj_a'', 0)],
      objs := (objs constructor)(0 := newSessionData 4242 1000 ''/proj/a'' None (Num 80) (Num 24)),
      nextRef := Suc 0\<rparr>"
  by (simp add: demoWorld_def getOrCreateSession_def getOrCreateSession_start_def getOrCreateSession_resume_def constructor_def Let_def
      generateSessionKey_def replaceSeparators_def)

lemma key_proj_a: "generateSessionKey ''/proj/a'' = ''project-_proj_a''"
  by (simp add: generateSessionKey_def replaceSeparators_def)

lemma getOrCreateSession_start_none:
  assumes "map_of (sessions w) (generateSessionKey P) = None"
  shows "getOrCreateSession_start now P c r w = (Suspended, w)"
  using assms by (simp add: getOrCreateSession_start_def)

lemma getOrCreateSession_reuse:
  assumes "map_of (sessions w) (generateSessionKey P) = Some s"
  shows "getOrCreateSession sp now P sid c r w =
           (if positive c \<and> positive r
            then (Inr (s, False),
                  updSession s
                    (\<lambda>x. x\<lparr>lastActiveAt := now,
                           ptyProcess := (ptyProcess x)\<lparr>ptyCols := c, ptyRows := r\<rparr>\<rparr>) w)
            else (Inl ResizeError, updSession s (\<lambda>x. x\<lparr>lastActiveAt := now\<rparr>) w))"
  using assms
  by (simp add: getOrCreateSession_def getOrCreateSession_start_def ptyResize_def updSession_def
      Let_def)

lemma getOrCreateSession_create:
  assumes "map_of (sessions w) (generateSessionKey P) = None"
  shows "getOrCreateSession (Spawned p) now P sid c r w =
           (Inr (nextRef w, True),
            w\<lparr>sessions := AList.update (generateSessionKey P) (nextRef w) (sessions w),
              objs := (objs w)(nextRef w := newSessionData p now P sid c r),
              nextRef := Suc (nextRef w)\<rparr>)"
  using assms
  by (simp add: getOrCreateSession_def getOrCreateSession_start_none
      getOrCreateSession_resume_def Let_def)

subsection \<open>Creating twice\<close>

text \<open>
  Calls that follow one another, each awaited, with sizes that \<open>resize\<close> accepts: a
  registered session is returned with \<open>isNew = false\<close> and nothing is spawned, and from a
  state with no session under the key two calls spawn one process.
\<close>

lemma getOrCreateSession_registered:
  assumes "map_of (sessions w) (generateSessionKey P) = Some s"
    and "positive c" and "positive r"
  shows "fst (getOrCreateSession sp now P sid c r w) = Inr (s, False)"
    and "nextRef (snd (getOrCreateSession sp now P sid c r w)) = nextRef w"
    and "sessions (snd (getOrCreateSession sp now P sid c r w)) = sessions w"
    and "pid (ptyProcess (objs (snd (getOrCreateSession sp now P sid c r w)) s))
           = pid (ptyProcess (objs w s))"
    and "signals (ptyProcess (objs (snd (getOrCreateSession sp now P sid c r w)) s))
           = signals (ptyProcess (objs w s))"
  using assms(2,3) by (simp_all add: getOrCreateSession_reuse[OF assms(1)] updSession_def)

lemma getOrCreateSession_sequential:
  assumes "map_of (sessions w) (generateSessionKey P) = None"
    and "positive c'" and "positive r'"
  shows "fst (getOrCreateSession (Spawned p) now P sid c r w) = Inr (nextRef w, True)"
    and "fst (getOrCreateSession sp' now' P sid' c' r'
               (snd (getOrCreateSession (Spawned p) now P sid c r w))) = Inr (nextRef w, False)"
    and "nextRef (snd (getOrCreateSession sp' now' P sid' c' r'
               (snd (getOrCreateSession (Spawned p) now P sid c r w)))) = Suc (nextRef w)"
proof -
  define w1 where "w1 = snd (getOrCreateSession (Spawned p) now P sid c r w)"
  note cr = getOrCreateSession_create[OF assms(1), of p now sid c r]
  have reg1: "map_of (sessions w1) (generateSessionKey P) = Some (nextRef w)"
    by (simp add: w1_def cr map_of_update_same)
  have n1: "nextRef w1 = Suc (nextRef w)"
    by (simp add: w1_def cr)
  show "fst (getOrCreateSession (Spawned p) now P sid c r w) = Inr (nextRef w, True)"
    by (simp add: cr)
  show "fst (getOrCreateSession sp' now' P sid' c' r'
               (snd (getOrCreateSession (Spawned p) now P sid c r w))) = Inr (nextRef w, False)"
    unfolding w1_def[symmetric]
    by (rule getOrCreateSession_registered(1)[OF reg1 assms(2,3)])
  show "nextRef (snd (getOrCreateSession sp' now' P sid' c' r'
               (snd (getOrCreateSession (Spawned p) now P sid c r w)))) = Suc (nextRef w)"
    unfolding w1_def[symmetric]
    by (simp add: getOrCreateSession_registered(2)[OF reg1 assms(2,3)] n1)
qed

text \<open>
  Calls that overlap. When a second call starts while the first is suspended at its
  \<open>await\<close>, both have found no session, and when they resume both spawn: two processes,
  both calls return \<open>isNew = true\<close>, and the map keeps the second session only.
\<close>

lemma getOrCreateSession_overlap:
  assumes "map_of (sessions w) (generateSessionKey P) = None"
  shows "getOrCreateSession_start t1 P c1 r1 w = (Suspended, w)"
    and "getOrCreateSession_start t2 P c2 r2 w = (Suspended, w)"
    and "fst (getOrCreateSession_resume (Spawned p1) t1 P sid1 c1 r1 w) = Inr (nextRef w, True)"
    and "fst (getOrCreateSession_resume (Spawned p2) t2 P sid2 c2 r2
               (snd (getOrCreateSession_resume (Spawned p1) t1 P sid1 c1 r1 w)))
           = Inr (Suc (nextRef w), True)"
    and "nextRef (snd (getOrCreateSession_resume (Spawned p2) t2 P sid2 c2 r2
               (snd (getOrCreateSession_resume (Spawned p1) t1 P sid1 c1 r1 w))))
           = Suc (Suc (nextRef w))"
    and "map_of (sessions (snd (getOrCreateSession_resume (Spawned p2) t2 P sid2 c2 r2
               (snd (getOrCreateSession_resume (Spawned p1) t1 P sid1 c1 r1 w)))))
            (generateSessionKey P) = Some (Suc (nextRef w))"
  using assms
  by (simp_all add: getOrCreateSession_start_none getOrCreateSession_resume_def Let_def
      map_of_update_same)

text \<open>
  C1. Creation is not idempotent for calls in immediate succession. On the manager as
  constructed, two calls for \<open>/proj/a\<close> are started one right after the other: each finds
  no session and is suspended, having changed nothing. The first resumes, spawns the
  process 4242 and registers session \<open>0\<close> with \<open>isNew = true\<close>. The second resumes,
  spawns the process 4243 and registers session \<open>1\<close>, also with \<open>isNew = true\<close>, in the
  place of session \<open>0\<close>. Two processes were spawned; the first runs on (no signal was sent
  to it) and the map no longer leads to it. Also, a call for the path of a registered session
  with the sizes \<open>0\<close> and \<open>0\<close> does not return the session: \<open>resize\<close> throws.
\<close>

theorem overlapping_calls_spawn_twice:
  "getOrCreateSession_start 1000 ''/proj/a'' (Num 80) (Num 24) constructor
     = (Suspended, constructor)
   \<and> getOrCreateSession_start 1001 ''/proj/a'' (Num 80) (Num 24) constructor
     = (Suspended, constructor)
   \<and> fst (getOrCreateSession_resume (Spawned 4242) 1000 ''/proj/a'' None (Num 80) (Num 24)
            constructor) = Inr (0, True)
   \<and> fst (getOrCreateSession_resume (Spawned 4243) 1001 ''/proj/a'' None (Num 80) (Num 24)
            (snd (getOrCreateSession_resume (Spawned 4242) 1000 ''/proj/a'' None (Num 80) (Num 24)
                    constructor))) = Inr (1, True)
   \<and> nextRef (snd (getOrCreateSession_resume (Spawned 4243) 1001 ''/proj/a'' None (Num 80) (Num 24)
            (snd (getOrCreateSession_resume (Spawned 4242) 1000 ''/proj/a'' None (Num 80) (Num 24)
                    constructor)))) = 2
   \<and> sessions (snd (getOrCreateSession_resume (Spawned 4243) 1001 ''/proj/a'' None (Num 80) (Num 24)
            (snd (getOrCreateSession_resume (Spawned 4242) 1000 ''/proj/a'' None (Num 80) (Num 24)
                    constructor)))) = [(''project-_proj_a'', 1)]
   \<and> pid (ptyProcess (objs (snd (getOrCreateSession_resume (Spawned 4243) 1001 ''/proj/a'' None
            (Num 80) (Num 24)
            (snd (getOrCreateSession_resume (Spawned 4242) 1000 ''/proj/a'' None (Num 80) (Num 24)
                    constructor)))) 0)) = 4242
   \<and> signals (ptyProcess (objs (snd (getOrCreateSession_resume (Spawned 4243) 1001 ''/proj/a'' None
            (Num 80) (Num 24)
            (snd (getOrCreateSession_resume (Spawned 4242) 1000 ''/proj/a'' None (Num 80) (Num 24)
                    constructor)))) 0)) = []
   \<and> pid (ptyProcess (objs (snd (getOrCreateSession_resume (Spawned 4243) 1001 ''/proj/a'' None
            (Num 80) (Num 24)
            (snd (getOrCreateSession_resume (Spawned 4242) 1000 ''/proj/a'' None (Num 80) (Num 24)
                    constructor)))) 1)) = 4243
   \<and> map_of (sessions demoWorld) (generateSessionKey ''/proj/a'') = Some 0
   \<and> fst (getOrCreateSession SpawnThrows 2000 ''/proj/a'' None (Num 0) (Num 0) demoWorld)
       = Inl ResizeError"
  by (simp add: getOrCreateSession_def getOrCreateSession_start_def getOrCreateSession_resume_def
      constructor_def Let_def key_proj_a demoWorld_eq newSessionData_def ptyResize_def
      positive_def updSession_def)

subsection \<open>Session keys collide\<close>

text \<open>
  C9. The key is \<open>project-\<close> followed by the path with every \<open>/\<close> and every backslash
  replaced by \<open>_\<close>. The paths \<open>/a/b\<close> and \<open>/a_b\<close> differ and have the same key, so the
  mapping is not injective; and in every state, after a call for \<open>/a/b\<close> whose spawn, if
  any, succeeded, the map holds a session under that key, and a call for \<open>/a_b\<close> meets
  that same session object, not a new one: it returns it with \<open>isNew = false\<close> (or ends
  with the exception of \<open>resize\<close> when its sizes are not positive numbers), the process
  is the same, and nothing is spawned.
\<close>

theorem session_key_collision:
  "generateSessionKey P
     = ''project-'' @ map (\<lambda>c. if c = CHR ''/'' \<or> c = CHR 0x5C then CHR ''_'' else c) P
   \<and> ''/a/b'' \<noteq> ''/a_b''
   \<and> generateSessionKey ''/a/b'' = generateSessionKey ''/a_b''
   \<and> \<not> inj generateSessionKey
   \<and> (\<exists>s.
        map_of (sessions (snd (getOrCreateSession (Spawned p1) t1 ''/a/b'' sid1 c1 r1 w)))
          (generateSessionKey ''/a/b'') = Some s
        \<and> fst (getOrCreateSession (Spawned p1) t1 ''/a/b'' sid1 c1 r1 w)
            = (if map_of (sessions w) (generateSessionKey ''/a/b'') = None
                  \<or> (positive c1 \<and> positive r1)
               then Inr (s, map_of (sessions w) (generateSessionKey ''/a/b'') = None)
               else Inl ResizeError)
        \<and> fst (getOrCreateSession sp2 t2 ''/a_b'' sid2 c2 r2
                 (snd (getOrCreateSession (Spawned p1) t1 ''/a/b'' sid1 c1 r1 w)))
            = (if positive c2 \<and> positive r2 then Inr (s, False) else Inl ResizeError)
        \<and> pid (ptyProcess (objs (snd (getOrCreateSession sp2 t2 ''/a_b'' sid2 c2 r2
                 (snd (getOrCreateSession (Spawned p1) t1 ''/a/b'' sid1 c1 r1 w)))) s))
            = pid (ptyProcess (objs (snd (getOrCreateSession (Spawned p1) t1 ''/a/b'' sid1 c1 r1 w)) s))
        \<and> nextRef (snd (getOrCreateSession sp2 t2 ''/a_b'' sid2 c2 r2
                 (snd (getOrCreateSession (Spawned p1) t1 ''/a/b'' sid1 c1 r1 w))))
            = nextRef (snd (getOrCreateSession (Spawned p1) t1 ''/a/b'' sid1 c1 r1 w)))"
proof -
  have k: "generateSessionKey ''/a/b'' = generateSessionKey ''/a_b''"
    by (simp add: generateSessionKey_def replaceSeparators_def)
  have ni: "\<not> inj generateSessionKey"
  proof
    assume "inj generateSessionKey"
    from injD[OF this k] show False by simp
  qed
  define w1 where "w1 = snd (getOrCreateSession (Spawned p1) t1 ''/a/b'' sid1 c1 r1 w)"
  have "\<exists>s. map_of (sessions w1) (generateSessionKey ''/a/b'') = Some s
          \<and> fst (getOrCreateSession (Spawned p1) t1 ''/a/b'' sid1 c1 r1 w)
            = (if map_of (sessions w) (generateSessionKey ''/a/b'') = None
                  \<or> (positive c1 \<and> positive r1)
               then Inr (s, map_of (sessions w) (generateSessionKey ''/a/b'') = None)
               else Inl ResizeError)"
  proof (cases "map_of (sessions w) (generateSessionKey ''/a/b'')")
    case None
    from getOrCreateSession_create[OF None, of p1 t1 sid1 c1 r1] None show ?thesis
      by (simp add: w1_def map_of_update_same)
  next
    case (Some s)
    from getOrCreateSession_reuse[OF Some, of "Spawned p1" t1 sid1 c1 r1] Some show ?thesis
      by (simp add: w1_def updSession_def)
  qed
  then obtain s where
    reg0: "map_of (sessions w1) (generateSessionKey ''/a/b'') = Some s"
    and f: "fst (getOrCreateSession (Spawned p1) t1 ''/a/b'' sid1 c1 r1 w)
            = (if map_of (sessions w) (generateSessionKey ''/a/b'') = None
                  \<or> (positive c1 \<and> positive r1)
               then Inr (s, map_of (sessions w) (generateSessionKey ''/a/b'') = None)
               else Inl ResizeError)"
    by blast
  from reg0 k have reg: "map_of (sessions w1) (generateSessionKey ''/a_b'') = Some s"
    by simp
  note r = getOrCreateSession_reuse[OF reg, of sp2 t2 sid2 c2 r2]
  have "fst (getOrCreateSession sp2 t2 ''/a_b'' sid2 c2 r2 w1)
          = (if positive c2 \<and> positive r2 then Inr (s, False) else Inl ResizeError)"
    "pid (ptyProcess (objs (snd (getOrCreateSession sp2 t2 ''/a_b'' sid2 c2 r2 w1)) s))
       = pid (ptyProcess (objs w1 s))"
    "nextRef (snd (getOrCreateSession sp2 t2 ''/a_b'' sid2 c2 r2 w1)) = nextRef w1"
    by (simp_all add: r updSession_def)
  with f reg0 have "\<exists>s.
        map_of (sessions w1) (generateSessionKey ''/a/b'') = Some s
        \<and> fst (getOrCreateSession (Spawned p1) t1 ''/a/b'' sid1 c1 r1 w)
            = (if map_of (sessions w) (generateSessionKey ''/a/b'') = None
                  \<or> (positive c1 \<and> positive r1)
               then Inr (s, map_of (sessions w) (generateSessionKey ''/a/b'') = None)
               else Inl ResizeError)
        \<and> fst (getOrCreateSession sp2 t2 ''/a_b'' sid2 c2 r2 w1)
            = (if positive c2 \<and> positive r2 then Inr (s, False) else Inl ResizeError)
        \<and> pid (ptyProcess (objs (snd (getOrCreateSession sp2 t2 ''/a_b'' sid2 c2 r2 w1)) s))
            = pid (ptyProcess (objs w1 s))
        \<and> nextRef (snd (getOrCreateSession sp2 t2 ''/a_b'' sid2 c2 r2 w1)) = nextRef w1"
    by blast
  then show ?thesis
    unfolding w1_def using k ni
    by (simp add: generateSessionKey_def replaceSeparators_def)
qed

subsection \<open>Sending and replay\<close>

lemma sendToWebSocket_frame [simp]:
  "objs (sendToWebSocket J ws d w) = objs w"
  "sessions (sendToWebSocket J ws d w) = sessions w"
  "nextRef (sendToWebSocket J ws d w) = nextRef w"
  "timers (sendToWebSocket J ws d w) = timers w"
  "cleanupInterval (sendToWebSocket J ws d w) = cleanupInterval w"
  "readyState (sockets (sendToWebSocket J ws d w) x) = readyState (sockets w x)"
  by (simp_all add: sendToWebSocket_def updSocket_def)

lemma sendToWebSocket_sent:
  "sent (sockets (sendToWebSocket J ws d w) x) =
     (if x = ws \<and> readyState (sockets w ws) = OPEN
      then sent (sockets w ws) @ messages J d else sent (sockets w x))"
  by (simp add: sendToWebSocket_def updSocket_def)

lemma sendAll_frame [simp]:
  "objs (foldl (\<lambda>w' item. sendToWebSocket J ws (data item) w') w buf) = objs w"
  "sessions (foldl (\<lambda>w' item. sendToWebSocket J ws (data item) w') w buf) = sessions w"
  "nextRef (foldl (\<lambda>w' item. sendToWebSocket J ws (data item) w') w buf) = nextRef w"
  "timers (foldl (\<lambda>w' item. sendToWebSocket J ws (data item) w') w buf) = timers w"
  "cleanupInterval (foldl (\<lambda>w' item. sendToWebSocket J ws (data item) w') w buf)
     = cleanupInterval w"
  "readyState (sockets (foldl (\<lambda>w' item. sendToWebSocket J ws (data item) w') w buf) x)
     = readyState (sockets w x)"
  by (induction buf arbitrary: w; simp)+

lemma sendAll_sent:
  "sent (sockets (foldl (\<lambda>w' item. sendToWebSocket J ws (data item) w') w buf) x) =
     (if x = ws \<and> readyState (sockets w ws) = OPEN
      then sent (sockets w ws) @ concat (map (\<lambda>item. messages J (data item)) buf)
      else sent (sockets w x))"
  by (induction buf arbitrary: w) (simp_all add: sendToWebSocket_sent)

lemma replayRecentOutput_frame [simp]:
  "objs (replayRecentOutput J s ws w) = objs w"
  "sessions (replayRecentOutput J s ws w) = sessions w"
  "nextRef (replayRecentOutput J s ws w) = nextRef w"
  "timers (replayRecentOutput J s ws w) = timers w"
  "cleanupInterval (replayRecentOutput J s ws w) = cleanupInterval w"
  "readyState (sockets (replayRecentOutput J s ws w) x) = readyState (sockets w x)"
  by (simp_all add: replayRecentOutput_def Let_def)

lemma replayRecentOutput_sent:
  "sent (sockets (replayRecentOutput J s ws w) x) =
     (if x = ws \<and> readyState (sockets w ws) = OPEN \<and> outputBuffer (objs w s) \<noteq> []
      then sent (sockets w ws)
             @ messages J (restoringMarker (length (outputBuffer (objs w s))))
             @ concat (map (\<lambda>item. messages J (data item)) (outputBuffer (objs w s)))
             @ messages J endMarker
      else sent (sockets w x))"
  by (simp add: replayRecentOutput_def Let_def sendToWebSocket_sent sendAll_sent)

lemma scanMatches_outputs:
  "filter isOutput (fst (scanMatches J p ms acc)) = filter isOutput (fst acc)"
  by (induction J p ms acc rule: scanMatches.induct) (simp_all add: isOutput_def)

lemma scanMatches_keeps:
  "\<not> includesStr (source p) ''OPEN_URL'' \<Longrightarrow> snd (scanMatches J p ms acc) = snd acc"
  by (induction J p ms acc rule: scanMatches.induct) simp_all

lemma scan_outputs: "filter isOutput (fst (scan J d)) = []"
proof -
  have "filter isOutput (fst (foldl (\<lambda>acc p. scanMatches J p (execAll J p d) acc) a ps))
          = filter isOutput (fst a)" for a ps
    by (induction ps arbitrary: a) (simp_all add: scanMatches_outputs)
  then show ?thesis by (simp add: scan_def)
qed

lemma messages_outputs: "filter isOutput (messages J d) = [Output (snd (scan J d))]"
  by (simp add: messages_def scan_outputs isOutput_def)

lemma scan_plain:
  assumes "execAll J (patterns ! 1) d = []"
  shows "snd (scan J d) = d"
  using assms
  by (simp add: scan_def patterns_def urlGroup_def scanMatches_keeps)

lemma messages_plain:
  assumes "execAll J (patterns ! 1) d = []"
  shows "filter isOutput (messages J d) = [Output d]"
  by (simp add: messages_outputs scan_plain[OF assms])

lemma concat_messages_outputs:
  "filter isOutput (concat (map (\<lambda>item. messages J (data item)) buf))
     = map (\<lambda>item. Output (snd (scan J (data item)))) buf"
  by (induction buf) (simp_all add: messages_outputs)

subsection \<open>Attaching, and the replay of the buffer\<close>

lemma updSession_frame [simp]:
  "sessions (updSession s f w) = sessions w"
  "nextRef (updSession s f w) = nextRef w"
  "sockets (updSession s f w) = sockets w"
  "timers (updSession s f w) = timers w"
  "cleanupInterval (updSession s f w) = cleanupInterval w"
  "objs (updSession s f w) x = (if x = s then f (objs w s) else objs w x)"
  by (simp_all add: updSession_def)

lemma updSocket_frame [simp]:
  "sessions (updSocket a f w) = sessions w"
  "nextRef (updSocket a f w) = nextRef w"
  "objs (updSocket a f w) = objs w"
  "timers (updSocket a f w) = timers w"
  "cleanupInterval (updSocket a f w) = cleanupInterval w"
  "sockets (updSocket a f w) x = (if x = a then f (sockets w a) else sockets w x)"
  by (simp_all add: updSocket_def)

lemma attachWebSocket_unbound:
  assumes "map_of (sessions w) (generateSessionKey P) = Some s"
    and "\<not> isConnected (objs w s)"
  shows "attachWebSocket J now P b w =
           (True, replayRecentOutput J s b
              (updSession s
                 (\<lambda>x. x\<lparr>isConnected := True, currentWs := Some b, lastActiveAt := now\<rparr>) w))"
  using assms by (simp add: attachWebSocket_def Let_def split: option.splits)

lemma attachWebSocket_bound:
  assumes "map_of (sessions w) (generateSessionKey P) = Some s"
    and "isConnected (objs w s)" and "currentWs (objs w s) = Some a"
  shows "attachWebSocket J now P b w =
           (True, replayRecentOutput J s b
              (updSession s
                 (\<lambda>x. x\<lparr>isConnected := True, currentWs := Some b, lastActiveAt := now\<rparr>)
                 (updSocket a wsClose w)))"
  using assms by (simp add: attachWebSocket_def Let_def)

lemma getSessionStatus_found:
  assumes "map_of (sessions w) (generateSessionKey P) = Some s"
  shows "statusExists (fst (getSessionStatus P w))"
    and "statusConnected (fst (getSessionStatus P w)) = Some (isConnected (objs w s))"
  using assms by (simp_all add: getSessionStatus_def statusExists_def statusConnected_def Let_def)

lemma onData_bound_sent:
  assumes "isConnected (objs w s)" and "currentWs (objs w s) = Some b"
    and "readyState (sockets w b) = OPEN"
  shows "sent (sockets (onData J t s d w) b) = sent (sockets w b) @ messages J d"
  using assms by (simp add: onData_def Let_def sendToWebSocket_sent)

text \<open>
  C3, as the code has it. Let a session have no bound transport and let an open socket be
  attached. \<open>replayRecentOutput\<close> returns at once on an empty buffer, so with no buffered
  entry nothing is sent, no marker either. With \<open>N \<ge> 1\<close> entries the socket receives, after
  what it had received before and in this order: what \<open>sendToWebSocket\<close> sends for the
  marker \<open>Restoring previous output (N entries)\<close>, for each of the \<open>N\<close> entries in append
  order, and for the marker \<open>End previous output\<close>. Its \<open>output\<close> messages are exactly
  these \<open>N + 2\<close>, each carrying the text as \<open>sendToWebSocket\<close> leaves it: unchanged
  whenever the \<open>OPEN_URL\<close> pattern has no match in it. The buffer itself is unchanged, and
  output that the process produces afterwards is sent after the replay.
\<close>

theorem replay_on_attach:
  assumes reg: "map_of (sessions w) (generateSessionKey P) = Some s"
    and unbound: "\<not> isConnected (objs w s)"
    and opn: "readyState (sockets w b) = OPEN"
  shows "(outputBuffer (objs w s) = [] \<longrightarrow>
            sent (sockets (snd (attachWebSocket J now P b w)) b) = sent (sockets w b))
    \<and> (outputBuffer (objs w s) \<noteq> [] \<longrightarrow>
          sent (sockets (snd (attachWebSocket J now P b w)) b)
            = sent (sockets w b)
               @ messages J (restoringMarker (length (outputBuffer (objs w s))))
               @ concat (map (\<lambda>item. messages J (data item)) (outputBuffer (objs w s)))
               @ messages J endMarker
        \<and> filter isOutput (drop (length (sent (sockets w b)))
                              (sent (sockets (snd (attachWebSocket J now P b w)) b)))
            = Output (snd (scan J (restoringMarker (length (outputBuffer (objs w s))))))
               # map (\<lambda>item. Output (snd (scan J (data item)))) (outputBuffer (objs w s))
               @ [Output (snd (scan J endMarker))]
        \<and> ((\<forall>d \<in> set (restoringMarker (length (outputBuffer (objs w s)))
                          # map data (outputBuffer (objs w s)) @ [endMarker]).
               execAll J (patterns ! 1) d = []) \<longrightarrow>
            filter isOutput (drop (length (sent (sockets w b)))
                              (sent (sockets (snd (attachWebSocket J now P b w)) b)))
              = map Output (restoringMarker (length (outputBuffer (objs w s)))
                             # map data (outputBuffer (objs w s)) @ [endMarker])))
    \<and> outputBuffer (objs (snd (attachWebSocket J now P b w)) s) = outputBuffer (objs w s)
    \<and> sent (sockets (onData J t s d (snd (attachWebSocket J now P b w))) b)
        = sent (sockets (snd (attachWebSocket J now P b w)) b) @ messages J d"
proof -
  define w' where "w' = snd (attachWebSocket J now P b w)"
  define buf where "buf = outputBuffer (objs w s)"
  note a = attachWebSocket_unbound[OF reg unbound, of J now b]
  have sent': "sent (sockets w' b) =
      (if buf \<noteq> []
       then sent (sockets w b) @ messages J (restoringMarker (length buf))
              @ concat (map (\<lambda>item. messages J (data item)) buf) @ messages J endMarker
       else sent (sockets w b))"
    using opn by (simp add: w'_def a buf_def replayRecentOutput_sent)
  have objs': "objs w' s = (objs w s)\<lparr>isConnected := True, currentWs := Some b, lastActiveAt := now\<rparr>"
    by (simp add: w'_def a)
  have opn': "readyState (sockets w' b) = OPEN"
    using opn by (simp add: w'_def a)
  have live: "sent (sockets (onData J t s d w') b) = sent (sockets w' b) @ messages J d"
    by (rule onData_bound_sent) (simp_all add: objs' opn')
  have outs: "buf \<noteq> [] \<Longrightarrow>
      filter isOutput (drop (length (sent (sockets w b))) (sent (sockets w' b)))
        = Output (snd (scan J (restoringMarker (length buf))))
           # map (\<lambda>item. Output (snd (scan J (data item)))) buf @ [Output (snd (scan J endMarker))]"
    by (simp add: sent' messages_outputs concat_messages_outputs)
  have plain: "map (\<lambda>item. Output (snd (scan J (data item)))) buf = map Output (map data buf)"
    if "\<forall>d \<in> set (map data buf). execAll J (patterns ! 1) d = []"
    using that by (induction buf) (simp_all add: scan_plain)
  have outs_plain: "filter isOutput (drop (length (sent (sockets w b))) (sent (sockets w' b)))
        = map Output (restoringMarker (length buf) # map data buf @ [endMarker])"
    if ne: "buf \<noteq> []"
      and q: "\<forall>d \<in> set (restoringMarker (length buf) # map data buf @ [endMarker]).
               execAll J (patterns ! 1) d = []"
  proof -
    from q have q1: "execAll J (patterns ! 1) (restoringMarker (length buf)) = []"
      and q2: "\<forall>d \<in> set (map data buf). execAll J (patterns ! 1) d = []"
      and q3: "execAll J (patterns ! 1) endMarker = []"
      by simp_all
    show ?thesis
      by (simp add: outs[OF ne] scan_plain[OF q1] scan_plain[OF q3] plain[OF q2])
  qed
  show ?thesis
    unfolding w'_def[symmetric] buf_def[symmetric]
    using sent' outs outs_plain live objs' by (simp add: buf_def)
qed

subsection \<open>The connection flag and the transport slot agree\<close>

lemma bindingOk_sendToWebSocket [simp]:
  "allBindingsOk (sendToWebSocket J ws d w) = allBindingsOk w"
  by (simp add: allBindingsOk_def)

lemma bindingOk_replay [simp]:
  "allBindingsOk (replayRecentOutput J s ws w) = allBindingsOk w"
  by (simp add: allBindingsOk_def)

lemma bindingOk_updSession:
  assumes "allBindingsOk w" and "bindingOk (objs w s) \<Longrightarrow> bindingOk (f (objs w s))"
  shows "allBindingsOk (updSession s f w)"
  using assms by (simp add: allBindingsOk_def)

lemma bindingOk_updSocket [simp]: "allBindingsOk (updSocket a f w) = allBindingsOk w"
  by (simp add: allBindingsOk_def)

lemma bindingOk_sessions_upd [simp]: "allBindingsOk (w\<lparr>sessions := x\<rparr>) = allBindingsOk w"
  and bindingOk_timers_upd [simp]: "allBindingsOk (w\<lparr>timers := y\<rparr>) = allBindingsOk w"
  and bindingOk_interval_upd [simp]: "allBindingsOk (w\<lparr>cleanupInterval := z\<rparr>) = allBindingsOk w"
  by (simp_all add: allBindingsOk_def)

lemma bindingOk_getOrCreate:
  "allBindingsOk w \<Longrightarrow> allBindingsOk (snd (getOrCreateSession sp now P sid c r w))"
  by (auto simp: getOrCreateSession_def getOrCreateSession_start_def getOrCreateSession_resume_def Let_def allBindingsOk_def bindingOk_def
      newSessionData_def split: option.splits spawn_result.splits)

lemma bindingOk_resume:
  "allBindingsOk w \<Longrightarrow> allBindingsOk (snd (getOrCreateSession_resume sp now P sid c r w))"
  by (auto simp: getOrCreateSession_resume_def Let_def allBindingsOk_def bindingOk_def
      newSessionData_def split: spawn_result.splits)

lemma bindingOk_attach:
  "allBindingsOk w \<Longrightarrow> allBindingsOk (snd (attachWebSocket J now P b w))"
  by (auto simp: attachWebSocket_def Let_def bindingOk_def split: option.splits
      intro!: bindingOk_updSession)

lemma bindingOk_detach:
  "allBindingsOk w \<Longrightarrow> allBindingsOk (snd (detachWebSocket now P w))"
  by (auto simp: detachWebSocket_def Let_def bindingOk_def split: option.splits
      intro!: bindingOk_updSession)

lemma bindingOk_write:
  "allBindingsOk w \<Longrightarrow> allBindingsOk (snd (writeToSession now P d w))"
  by (auto simp: writeToSession_def Let_def bindingOk_def split: option.splits
      intro!: bindingOk_updSession)

lemma bindingOk_resize:
  "allBindingsOk w \<Longrightarrow> allBindingsOk (snd (resizeSession now P c r w))"
  by (auto simp: resizeSession_def Let_def bindingOk_def split: option.splits
      intro!: bindingOk_updSession)

lemma bindingOk_kill:
  "allBindingsOk w \<Longrightarrow> allBindingsOk (snd (killSession P force w))"
  by (auto simp: killSession_def Let_def bindingOk_def split: option.splits
      intro!: bindingOk_updSession)

lemma bindingOk_status:
  "allBindingsOk w \<Longrightarrow> allBindingsOk (snd (getSessionStatus P w))"
  by (auto simp: getSessionStatus_def Let_def split: option.splits)

lemma bindingOk_reapKey: "allBindingsOk w \<Longrightarrow> allBindingsOk (reapKey k w)"
  by (auto simp: reapKey_def Let_def bindingOk_def split: option.splits
      intro!: bindingOk_updSession)

lemma bindingOk_reap: "allBindingsOk w \<Longrightarrow> allBindingsOk (cleanupInactiveSessions now w)"
proof -
  have "allBindingsOk w' \<Longrightarrow> allBindingsOk (foldl (\<lambda>w' key. reapKey key w') w' ks)" for w' ks
    by (induction ks arbitrary: w') (simp_all add: bindingOk_reapKey)
  then show "allBindingsOk w \<Longrightarrow> allBindingsOk (cleanupInactiveSessions now w)"
    by (simp add: cleanupInactiveSessions_def Let_def)
qed

lemma bindingOk_killAll:
  "allBindingsOk w \<Longrightarrow>
     allBindingsOk (foldl (\<lambda>w' (key, session).
         updSession session (\<lambda>s. s\<lparr>ptyProcess := ptyKill DefaultSignal (ptyProcess s)\<rparr>) w')
         w xs)"
proof (induction xs arbitrary: w)
  case Nil
  then show ?case by simp
next
  case (Cons x xs)
  obtain k s where x: "x = (k, s)" by (cases x)
  have "allBindingsOk
          (updSession s (\<lambda>s. s\<lparr>ptyProcess := ptyKill DefaultSignal (ptyProcess s)\<rparr>) w)"
    using Cons.prems by (auto simp: bindingOk_def intro!: bindingOk_updSession)
  from Cons.IH[OF this] show ?case by (simp add: x)
qed

lemma bindingOk_cleanup: "allBindingsOk w \<Longrightarrow> allBindingsOk (cleanup w)"
  by (simp add: cleanup_def Let_def bindingOk_killAll)

lemma bindingOk_onData: "allBindingsOk w \<Longrightarrow> allBindingsOk (onData J now s d w)"
  by (auto simp: onData_def Let_def bindingOk_def split: option.splits
      intro!: bindingOk_updSession)

lemma bindingOk_onExit: "allBindingsOk w \<Longrightarrow> allBindingsOk (onExit s c w)"
  by (simp add: onExit_def)

lemma bindingOk_timerFired: "allBindingsOk w \<Longrightarrow> allBindingsOk (timerFired t w)"
  by (auto simp: timerFired_def Let_def bindingOk_def intro!: bindingOk_updSession)

lemma bindingOk_step: "allBindingsOk w \<Longrightarrow> allBindingsOk (step J e w)"
  by (cases e)
     (simp_all add: bindingOk_getOrCreate bindingOk_resume bindingOk_attach bindingOk_detach bindingOk_write
        bindingOk_resize bindingOk_kill bindingOk_status bindingOk_reap bindingOk_cleanup
        bindingOk_onData bindingOk_onExit bindingOk_timerFired)

lemma bindingOk_run: "allBindingsOk w \<Longrightarrow> allBindingsOk (run J evs w)"
  unfolding run_def by (induction evs arbitrary: w) (simp_all add: bindingOk_step)

lemma bindingOk_reachable: "allBindingsOk (run J evs constructor)"
  by (rule bindingOk_run)
     (simp add: allBindingsOk_def constructor_def bindingOk_def blankSession_def
        newSessionData_def)

lemma boundTransports_card: "card (boundTransports s) \<le> Suc 0"
proof (cases "isConnected s")
  case False
  then show ?thesis by (simp add: boundTransports_def)
next
  case True
  show ?thesis
  proof (cases "currentWs s")
    case None
    with True show ?thesis by (simp add: boundTransports_def)
  next
    case (Some t)
    with True have "boundTransports s = {t}" by (auto simp: boundTransports_def)
    then show ?thesis by simp
  qed
qed

subsection \<open>The example states\<close>

lemma demoWorld_facts:
  "sessions demoWorld = [(''project-_proj_a'', 0)]"
  "nextRef demoWorld = 1"
  "sockets demoWorld x = \<lparr>readyState = OPEN, sent = []\<rparr>"
  "timers demoWorld = []"
  "objs demoWorld 0 = newSessionData 4242 1000 ''/proj/a'' None (Num 80) (Num 24)"
  by (simp_all add: demoWorld_eq constructor_def)

lemma boundWorld_facts:
  "sessions boundWorld = [(''project-_proj_a'', 0)]"
  "sockets boundWorld x = \<lparr>readyState = OPEN, sent = []\<rparr>"
  "timers boundWorld = []"
  "objs boundWorld 0 = (newSessionData 4242 1000 ''/proj/a'' None (Num 80) (Num 24))
      \<lparr>isConnected := True, currentWs := Some 7, lastActiveAt := 2000\<rparr>"
  by (simp_all add: boundWorld_def attachWebSocket_def key_proj_a demoWorld_facts Let_def
      newSessionData_def replayRecentOutput_def)

lemma bufferedWorld_facts:
  "sessions bufferedWorld = [(''project-_proj_a'', 0)]"
  "sockets bufferedWorld x = \<lparr>readyState = OPEN, sent = []\<rparr>"
  "timers bufferedWorld = []"
  "objs bufferedWorld 0 = (newSessionData 4242 1000 ''/proj/a'' None (Num 80) (Num 24))
      \<lparr>outputBuffer := [\<lparr>data = ''hello'', timestamp = 1100\<rparr>,
                         \<lparr>data = ''world'', timestamp = 1200\<rparr>]\<rparr>"
  by (simp_all add: bufferedWorld_def onData_def demoWorld_facts Let_def newSessionData_def)

lemma messages_noMatch: "messages noMatch d = [Output d]"
  by (simp add: messages_def scan_def patterns_def noMatch_def)

subsection \<open>One transport at a time\<close>

text \<open>
  C2. Let a session be bound to the socket \<open>a\<close> and let another socket \<open>b\<close> be attached.
  Then \<open>close\<close> was called on \<open>a\<close> (it is no longer open), \<open>b\<close> is the one bound
  transport of the session, the process handle is untouched and the map is unchanged, and
  a status query in the resulting state reports the session as existing and connected.
  A session object has a single slot for its transport, so in every state reached by any
  sequence of operations and events the set of bound transports of a session has at most
  one element; and if the flag \<open>isConnected\<close> and the slot \<open>currentWs\<close> agree in every
  session before, they agree in every state reached afterwards.
\<close>

theorem attach_replaces_transport:
  assumes reg: "map_of (sessions w) (generateSessionKey P) = Some s"
    and bound: "isConnected (objs w s)"
    and cur: "currentWs (objs w s) = Some a"
    and neq: "a \<noteq> b"
  shows "fst (attachWebSocket J now P b w)
    \<and> readyState (sockets (snd (attachWebSocket J now P b w)) a) \<noteq> OPEN
    \<and> readyState (sockets (snd (attachWebSocket J now P b w)) a)
        = (if readyState (sockets w a) = CLOSED then CLOSED else CLOSING)
    \<and> readyState (sockets (snd (attachWebSocket J now P b w)) b) = readyState (sockets w b)
    \<and> isConnected (objs (snd (attachWebSocket J now P b w)) s)
    \<and> currentWs (objs (snd (attachWebSocket J now P b w)) s) = Some b
    \<and> boundTransports (objs (snd (attachWebSocket J now P b w)) s) = {b}
    \<and> lastActiveAt (objs (snd (attachWebSocket J now P b w)) s) = now
    \<and> ptyProcess (objs (snd (attachWebSocket J now P b w)) s) = ptyProcess (objs w s)
    \<and> sessions (snd (attachWebSocket J now P b w)) = sessions w
    \<and> nextRef (snd (attachWebSocket J now P b w)) = nextRef w
    \<and> statusExists (fst (getSessionStatus P (snd (attachWebSocket J now P b w))))
    \<and> statusConnected (fst (getSessionStatus P (snd (attachWebSocket J now P b w)))) = Some True
    \<and> (\<forall>evs x. card (boundTransports (objs (run J evs (snd (attachWebSocket J now P b w))) x)) \<le> 1)
    \<and> (allBindingsOk w \<longrightarrow>
          (\<forall>evs. allBindingsOk (run J evs (snd (attachWebSocket J now P b w)))))"
proof -
  define w' where "w' = snd (attachWebSocket J now P b w)"
  note a = attachWebSocket_bound[OF reg bound cur, of J now b]
  have obj: "objs w' s = (objs w s)\<lparr>isConnected := True, currentWs := Some b, lastActiveAt := now\<rparr>"
    by (simp add: w'_def a)
  have reg': "map_of (sessions w') (generateSessionKey P) = Some s"
    using reg by (simp add: w'_def a)
  have closed: "readyState (sockets w' a)
                  = (if readyState (sockets w a) = CLOSED then CLOSED else CLOSING)"
    by (simp add: w'_def a wsClose_def)
  have other: "readyState (sockets w' b) = readyState (sockets w b)"
    using neq by (simp add: w'_def a)
  have bt: "boundTransports (objs w' s) = {b}"
    by (auto simp: obj boundTransports_def)
  have inv: "allBindingsOk w \<Longrightarrow> allBindingsOk (run J evs w')" for evs
    unfolding w'_def by (intro bindingOk_run bindingOk_attach)
  have "fst (attachWebSocket J now P b w)" by (simp add: a)
  moreover have "sessions w' = sessions w" "nextRef w' = nextRef w"
    by (simp_all add: w'_def a)
  moreover note getSessionStatus_found[OF reg']
  ultimately show ?thesis
    unfolding w'_def[symmetric]
    using closed other bt inv by (simp add: obj boundTransports_card)
qed

theorem attach_replaces_transport_witness:
  "map_of (sessions boundWorld) (generateSessionKey ''/proj/a'') = Some 0
   \<and> isConnected (objs boundWorld 0)
   \<and> currentWs (objs boundWorld 0) = Some 7
   \<and> (7::nat) \<noteq> 8
   \<and> allBindingsOk boundWorld
   \<and> readyState (sockets boundWorld 7) = OPEN
   \<and> readyState (sockets (snd (attachWebSocket noMatch 3000 ''/proj/a'' 8 boundWorld)) 7) = CLOSING
   \<and> currentWs (objs (snd (attachWebSocket noMatch 3000 ''/proj/a'' 8 boundWorld)) 0) = Some 8
   \<and> statusConnected
        (fst (getSessionStatus ''/proj/a'' (snd (attachWebSocket noMatch 3000 ''/proj/a'' 8 boundWorld))))
       = Some True
   \<and> allBindingsOk (run noMatch [Detach 4000 ''/proj/a'']
        (snd (attachWebSocket noMatch 3000 ''/proj/a'' 8 boundWorld)))"
proof -
  have reg: "map_of (sessions boundWorld) (generateSessionKey ''/proj/a'') = Some 0"
    by (simp add: boundWorld_facts key_proj_a)
  have bound: "isConnected (objs boundWorld 0)" and cur: "currentWs (objs boundWorld 0) = Some 7"
    by (simp_all add: boundWorld_facts)
  have neq: "(7::nat) \<noteq> 8" by simp
  have ok: "allBindingsOk boundWorld"
    unfolding boundWorld_def demoWorld_def
    by (intro bindingOk_attach bindingOk_getOrCreate)
       (simp add: allBindingsOk_def constructor_def bindingOk_def blankSession_def newSessionData_def)
  have opn: "readyState (sockets boundWorld 7) = OPEN"
    by (simp add: boundWorld_facts)
  from attach_replaces_transport[OF reg bound cur neq, of noMatch 3000] ok opn reg bound cur
  show ?thesis by simp
qed

subsection \<open>Replay with an empty buffer\<close>

text \<open>
  C3 as stated fails for \<open>N = 0\<close>: the session of \<open>demoWorld\<close> has an empty buffer and
  no bound transport, the socket \<open>7\<close> is open and has received nothing, and after it is
  attached it still has received nothing: neither of the two markers was sent.
\<close>

theorem replay_empty_buffer_counterexample:
  "map_of (sessions demoWorld) (generateSessionKey ''/proj/a'') = Some 0
   \<and> \<not> isConnected (objs demoWorld 0)
   \<and> length (outputBuffer (objs demoWorld 0)) = 0
   \<and> sockets demoWorld 7 = \<lparr>readyState = OPEN, sent = []\<rparr>
   \<and> fst (attachWebSocket noMatch 2000 ''/proj/a'' 7 demoWorld)
   \<and> sent (sockets (snd (attachWebSocket noMatch 2000 ''/proj/a'' 7 demoWorld)) 7) = []
   \<and> Output (restoringMarker 0)
        \<notin> set (sent (sockets (snd (attachWebSocket noMatch 2000 ''/proj/a'' 7 demoWorld)) 7))
   \<and> Output endMarker
        \<notin> set (sent (sockets (snd (attachWebSocket noMatch 2000 ''/proj/a'' 7 demoWorld)) 7))"
  by (simp add: attachWebSocket_def key_proj_a demoWorld_facts Let_def newSessionData_def
      replayRecentOutput_def)

theorem replay_on_attach_witness:
  "map_of (sessions bufferedWorld) (generateSessionKey ''/proj/a'') = Some 0
   \<and> \<not> isConnected (objs bufferedWorld 0)
   \<and> readyState (sockets bufferedWorld 7) = OPEN
   \<and> map data (outputBuffer (objs bufferedWorld 0)) = [''hello'', ''world'']
   \<and> sent (sockets (snd (attachWebSocket noMatch 2000 ''/proj/a'' 7 bufferedWorld)) 7)
       = [Output (restoringMarker 2), Output ''hello'', Output ''world'', Output endMarker]
   \<and> sent (sockets (onData noMatch 2100 0 ''more''
               (snd (attachWebSocket noMatch 2000 ''/proj/a'' 7 bufferedWorld))) 7)
       = [Output (restoringMarker 2), Output ''hello'', Output ''world'', Output endMarker,
          Output ''more'']"
proof -
  have reg: "map_of (sessions bufferedWorld) (generateSessionKey ''/proj/a'') = Some 0"
    by (simp add: bufferedWorld_facts key_proj_a)
  have unbound: "\<not> isConnected (objs bufferedWorld 0)"
    by (simp add: bufferedWorld_facts newSessionData_def)
  have opn: "readyState (sockets bufferedWorld 7) = OPEN"
    by (simp add: bufferedWorld_facts)
  have buf: "outputBuffer (objs bufferedWorld 0)
               = [\<lparr>data = ''hello'', timestamp = 1100\<rparr>, \<lparr>data = ''world'', timestamp = 1200\<rparr>]"
    by (simp add: bufferedWorld_facts)
  have s0: "sent (sockets bufferedWorld 7) = []"
    by (simp add: bufferedWorld_facts)
  have two: "Suc (Suc 0) = 2" by simp
  from replay_on_attach[OF reg unbound opn, of noMatch 2000 2100 "''more''"]
  show ?thesis
    using reg unbound opn by (simp add: buf s0 messages_noMatch two)
qed

subsection \<open>The output buffer is bounded\<close>

lemma onData_buffer:
  "outputBuffer (objs (onData J t s d w) x) =
     (if x = s
      then (if length (outputBuffer (objs w s)) \<ge> 1000
            then sliceLast 800 (outputBuffer (objs w s) @ [\<lparr>data = d, timestamp = t\<rparr>])
            else outputBuffer (objs w s) @ [\<lparr>data = d, timestamp = t\<rparr>])
      else outputBuffer (objs w x))"
  by (auto simp: onData_def Let_def split: option.splits)

lemma onData_buffer_length:
  "length (outputBuffer (objs w s)) \<le> 1000 \<Longrightarrow>
     length (outputBuffer (objs (onData J t s d w) x))
       = (if x = s then (if length (outputBuffer (objs w s)) = 1000 then 800
                         else Suc (length (outputBuffer (objs w s))))
          else length (outputBuffer (objs w x)))"
  by (auto simp: onData_buffer sliceLast_def)

lemma buffersBounded_updSession:
  assumes "buffersBounded w"
    and "length (outputBuffer (objs w s)) \<le> 1000 \<Longrightarrow> length (outputBuffer (f (objs w s))) \<le> 1000"
  shows "buffersBounded (updSession s f w)"
  using assms by (simp add: buffersBounded_def)

lemma buffersBounded_frame [simp]:
  "buffersBounded (sendToWebSocket J ws d w) = buffersBounded w"
  "buffersBounded (replayRecentOutput J s ws w) = buffersBounded w"
  "buffersBounded (updSocket a g w) = buffersBounded w"
  "buffersBounded (w\<lparr>sessions := x\<rparr>) = buffersBounded w"
  "buffersBounded (w\<lparr>timers := y\<rparr>) = buffersBounded w"
  "buffersBounded (w\<lparr>cleanupInterval := z\<rparr>) = buffersBounded w"
  by (simp_all add: buffersBounded_def)

lemma buffersBounded_getOrCreate:
  "buffersBounded w \<Longrightarrow> buffersBounded (snd (getOrCreateSession sp now P sid c r w))"
  by (auto simp: getOrCreateSession_def getOrCreateSession_start_def getOrCreateSession_resume_def Let_def buffersBounded_def
      newSessionData_def split: option.splits spawn_result.splits)

lemma buffersBounded_resume:
  "buffersBounded w \<Longrightarrow> buffersBounded (snd (getOrCreateSession_resume sp now P sid c r w))"
  by (auto simp: getOrCreateSession_resume_def Let_def buffersBounded_def
      newSessionData_def split: spawn_result.splits)

lemma buffersBounded_attach:
  "buffersBounded w \<Longrightarrow> buffersBounded (snd (attachWebSocket J now P b w))"
  by (auto simp: attachWebSocket_def Let_def split: option.splits
      intro!: buffersBounded_updSession)

lemma buffersBounded_detach:
  "buffersBounded w \<Longrightarrow> buffersBounded (snd (detachWebSocket now P w))"
  by (auto simp: detachWebSocket_def Let_def split: option.splits
      intro!: buffersBounded_updSession)

lemma buffersBounded_write:
  "buffersBounded w \<Longrightarrow> buffersBounded (snd (writeToSession now P d w))"
  by (auto simp: writeToSession_def Let_def split: option.splits
      intro!: buffersBounded_updSession)

lemma buffersBounded_resize:
  "buffersBounded w \<Longrightarrow> buffersBounded (snd (resizeSession now P c r w))"
  by (auto simp: resizeSession_def Let_def split: option.splits
      intro!: buffersBounded_updSession)

lemma buffersBounded_kill:
  "buffersBounded w \<Longrightarrow> buffersBounded (snd (killSession P force w))"
  by (auto simp: killSession_def Let_def split: option.splits
      intro!: buffersBounded_updSession)

lemma buffersBounded_status:
  "buffersBounded w \<Longrightarrow> buffersBounded (snd (getSessionStatus P w))"
  by (auto simp: getSessionStatus_def Let_def split: option.splits)

lemma buffersBounded_reapKey: "buffersBounded w \<Longrightarrow> buffersBounded (reapKey k w)"
  by (auto simp: reapKey_def Let_def split: option.splits
      intro!: buffersBounded_updSession)

lemma buffersBounded_reap: "buffersBounded w \<Longrightarrow> buffersBounded (cleanupInactiveSessions now w)"
proof -
  have "buffersBounded w' \<Longrightarrow> buffersBounded (foldl (\<lambda>w' key. reapKey key w') w' ks)" for w' ks
    by (induction ks arbitrary: w') (simp_all add: buffersBounded_reapKey)
  then show "buffersBounded w \<Longrightarrow> buffersBounded (cleanupInactiveSessions now w)"
    by (simp add: cleanupInactiveSessions_def Let_def)
qed

lemma buffersBounded_killAll:
  "buffersBounded w \<Longrightarrow>
     buffersBounded (foldl (\<lambda>w' (key, session).
         updSession session (\<lambda>s. s\<lparr>ptyProcess := ptyKill DefaultSignal (ptyProcess s)\<rparr>) w')
         w xs)"
proof (induction xs arbitrary: w)
  case Nil
  then show ?case by simp
next
  case (Cons x xs)
  obtain k s where x: "x = (k, s)" by (cases x)
  have "buffersBounded
          (updSession s (\<lambda>s. s\<lparr>ptyProcess := ptyKill DefaultSignal (ptyProcess s)\<rparr>) w)"
    using Cons.prems by (auto intro!: buffersBounded_updSession)
  from Cons.IH[OF this] show ?case by (simp add: x)
qed

lemma buffersBounded_cleanup: "buffersBounded w \<Longrightarrow> buffersBounded (cleanup w)"
  by (simp add: cleanup_def Let_def buffersBounded_killAll)

lemma buffersBounded_onData: "buffersBounded w \<Longrightarrow> buffersBounded (onData J now s d w)"
  unfolding buffersBounded_def
proof
  fix x
  assume a: "\<forall>session. length (outputBuffer (objs w session)) \<le> 1000"
  then have b: "length (outputBuffer (objs w s)) \<le> 1000" by blast
  from a have c: "length (outputBuffer (objs w x)) \<le> 1000" by blast
  from onData_buffer_length[OF b, of J now d x] b c
  show "length (outputBuffer (objs (onData J now s d w) x)) \<le> 1000"
    by (simp split: if_splits)
qed

lemma buffersBounded_onExit: "buffersBounded w \<Longrightarrow> buffersBounded (onExit s c w)"
  by (simp add: onExit_def)

lemma buffersBounded_timerFired: "buffersBounded w \<Longrightarrow> buffersBounded (timerFired t w)"
  by (auto simp: timerFired_def Let_def intro!: buffersBounded_updSession)

lemma buffersBounded_step: "buffersBounded w \<Longrightarrow> buffersBounded (step J e w)"
  by (cases e)
     (simp_all add: buffersBounded_getOrCreate buffersBounded_resume buffersBounded_attach buffersBounded_detach
        buffersBounded_write buffersBounded_resize buffersBounded_kill buffersBounded_status
        buffersBounded_reap buffersBounded_cleanup buffersBounded_onData buffersBounded_onExit
        buffersBounded_timerFired)

lemma buffersBounded_run: "buffersBounded w \<Longrightarrow> buffersBounded (run J evs w)"
  unfolding run_def by (induction evs arbitrary: w) (simp_all add: buffersBounded_step)

lemma buffersBounded_reachable: "buffersBounded (run J evs constructor)"
  by (rule buffersBounded_run)
     (simp add: buffersBounded_def constructor_def blankSession_def newSessionData_def)

lemma run_append: "run J (xs @ ys) w = run J ys (run J xs w)"
  by (simp add: run_def)

lemma run_snoc: "run J (evs @ [e]) w = step J e (run J evs w)"
  by (simp add: run_def)

lemma feed_no_trim:
  "length (outputBuffer (objs w s)) + length ds \<le> 1000 \<Longrightarrow>
     outputBuffer (objs (run J (map (\<lambda>(t, d). Data t s d) ds) w) s)
       = outputBuffer (objs w s) @ map (\<lambda>(t, d). \<lparr>data = d, timestamp = t\<rparr>) ds"
proof (induction ds rule: rev_induct)
  case Nil
  then show ?case by (simp add: run_def)
next
  case (snoc x ds)
  obtain t' d' where x: "x = (t', d')" by (cases x)
  from snoc.prems have "length (outputBuffer (objs w s)) + length ds \<le> 1000" by simp
  note ih = snoc.IH[OF this]
  from snoc.prems have "length (outputBuffer (objs w s)) + length ds < 1000" by simp
  then show ?case
    by (simp add: x run_snoc onData_buffer ih)
qed

lemma feed_bounded:
  "length (outputBuffer (objs w s)) \<le> 1000 \<Longrightarrow>
     length (outputBuffer (objs (run J (map (\<lambda>(t, d). Data t s d) ds) w) s)) \<le> 1000"
proof (induction ds rule: rev_induct)
  case Nil
  then show ?case by (simp add: run_def)
next
  case (snoc x ds)
  obtain t' d' where x: "x = (t', d')" by (cases x)
  note ih = snoc.IH[OF snoc.prems]
  from onData_buffer_length[OF ih, of J t' d' s] ih
  show ?case
    by (simp add: x run_snoc split: if_splits)
qed

text \<open>
  C4. If no session holds more than 1000 entries, then after any sequence of operations
  and events none does; a session is created with an empty buffer. An append to a buffer
  of fewer than 1000 entries only adds the entry. An append to a buffer of exactly 1000
  entries makes it 1001 long, and the handler then replaces it, in one step, by its last
  800 entries (the first 201 are dropped). In particular, when 1500 chunks arrive for a
  session whose buffer was empty, the buffer has at most 1000 entries after each of them,
  it holds all the chunks so far up to the 1000th, and the 1001st brings the first trim,
  after which it has exactly 800 entries.
\<close>

theorem outputBuffer_bounded:
  "(buffersBounded w \<longrightarrow> buffersBounded (run J evs w))
   \<and> (length (outputBuffer (objs w s)) < 1000 \<longrightarrow>
        outputBuffer (objs (onData J t s d w) s)
          = outputBuffer (objs w s) @ [\<lparr>data = d, timestamp = t\<rparr>])
   \<and> (length (outputBuffer (objs w s)) = 1000 \<longrightarrow>
        outputBuffer (objs (onData J t s d w) s)
          = sliceLast 800 (outputBuffer (objs w s) @ [\<lparr>data = d, timestamp = t\<rparr>])
        \<and> outputBuffer (objs (onData J t s d w) s)
          = drop 201 (outputBuffer (objs w s) @ [\<lparr>data = d, timestamp = t\<rparr>])
        \<and> length (outputBuffer (objs (onData J t s d w) s)) = 800)
   \<and> (outputBuffer (objs w s) = [] \<and> length ds = 1500 \<longrightarrow>
        (\<forall>n. length (outputBuffer
                (objs (run J (map (\<lambda>(t, d). Data t s d) (take n ds)) w) s)) \<le> 1000)
        \<and> (\<forall>n\<le>1000. outputBuffer
                (objs (run J (map (\<lambda>(t, d). Data t s d) (take n ds)) w) s)
              = map (\<lambda>(t, d). \<lparr>data = d, timestamp = t\<rparr>) (take n ds))
        \<and> outputBuffer (objs (run J (map (\<lambda>(t, d). Data t s d) (take 1001 ds)) w) s)
            = map (\<lambda>(t, d). \<lparr>data = d, timestamp = t\<rparr>) (drop 201 (take 1001 ds))
        \<and> length (outputBuffer
              (objs (run J (map (\<lambda>(t, d). Data t s d) (take 1001 ds)) w) s)) = 800)"
proof (intro conjI impI allI)
  assume "buffersBounded w"
  then show "buffersBounded (run J evs w)" by (rule buffersBounded_run)
next
  assume "length (outputBuffer (objs w s)) < 1000"
  then show "outputBuffer (objs (onData J t s d w) s)
          = outputBuffer (objs w s) @ [\<lparr>data = d, timestamp = t\<rparr>]"
    by (simp add: onData_buffer)
next
  assume full: "length (outputBuffer (objs w s)) = 1000"
  then show a: "outputBuffer (objs (onData J t s d w) s)
          = sliceLast 800 (outputBuffer (objs w s) @ [\<lparr>data = d, timestamp = t\<rparr>])"
    by (simp add: onData_buffer)
  from full show "outputBuffer (objs (onData J t s d w) s)
          = drop 201 (outputBuffer (objs w s) @ [\<lparr>data = d, timestamp = t\<rparr>])"
    by (simp add: a sliceLast_def)
  from full show "length (outputBuffer (objs (onData J t s d w) s)) = 800"
    by (simp add: onData_buffer_length)
next
  fix n
  assume h: "outputBuffer (objs w s) = [] \<and> length ds = 1500"
  then have "length (outputBuffer (objs w s)) \<le> 1000" by simp
  then show "length (outputBuffer
                (objs (run J (map (\<lambda>(t, d). Data t s d) (take n ds)) w) s)) \<le> 1000"
    by (rule feed_bounded)
next
  fix n :: nat
  assume h: "outputBuffer (objs w s) = [] \<and> length ds = 1500" and n: "n \<le> 1000"
  then have "length (outputBuffer (objs w s)) + length (take n ds) \<le> 1000" by simp
  from feed_no_trim[OF this, of J] h
  show "outputBuffer (objs (run J (map (\<lambda>(t, d). Data t s d) (take n ds)) w) s)
              = map (\<lambda>(t, d). \<lparr>data = d, timestamp = t\<rparr>) (take n ds)"
    by simp
next
  assume h: "outputBuffer (objs w s) = [] \<and> length ds = 1500"
  define w1 where "w1 = run J (map (\<lambda>(t, d). Data t s d) (take 1000 ds)) w"
  obtain t' d' where x: "ds ! 1000 = (t', d')" by (cases "ds ! 1000")
  from h have "length (outputBuffer (objs w s)) + length (take 1000 ds) \<le> 1000" by simp
  from feed_no_trim[OF this, of J] h
  have b1: "outputBuffer (objs w1 s) = map (\<lambda>(t, d). \<lparr>data = d, timestamp = t\<rparr>) (take 1000 ds)"
    by (simp add: w1_def)
  from h have len1: "length (outputBuffer (objs w1 s)) = 1000"
    by (simp add: b1)
  from h have split: "take 1001 ds = take 1000 ds @ [ds ! 1000]"
    using take_Suc_conv_app_nth[of 1000 ds] by simp
  have r: "run J (map (\<lambda>(t, d). Data t s d) (take 1001 ds)) w = onData J t' s d' w1"
    by (simp add: split run_snoc w1_def x)
  have "outputBuffer (objs (onData J t' s d' w1) s)
          = drop 201 (outputBuffer (objs w1 s) @ [\<lparr>data = d', timestamp = t'\<rparr>])"
    using len1 by (simp add: onData_buffer sliceLast_def)
  also have "\<dots> = map (\<lambda>(t, d). \<lparr>data = d, timestamp = t\<rparr>) (drop 201 (take 1000 ds @ [ds ! 1000]))"
    using h by (simp add: b1 x drop_map)
  finally have "outputBuffer (objs (onData J t' s d' w1) s)
          = map (\<lambda>(t, d). \<lparr>data = d, timestamp = t\<rparr>) (drop 201 (take 1000 ds @ [ds ! 1000]))" .
  then show "outputBuffer (objs (run J (map (\<lambda>(t, d). Data t s d) (take 1001 ds)) w) s)
            = map (\<lambda>(t, d). \<lparr>data = d, timestamp = t\<rparr>) (drop 201 (take 1001 ds))"
    unfolding r split[symmetric] .
  show "length (outputBuffer
              (objs (run J (map (\<lambda>(t, d). Data t s d) (take 1001 ds)) w) s)) = 800"
    using len1 by (simp add: r onData_buffer_length)
qed

lemma fullWorld_buffer:
  "outputBuffer (objs fullWorld 0) = replicate 1000 \<lparr>data = ''x'', timestamp = 1100\<rparr>"
proof -
  have "length (outputBuffer (objs demoWorld 0)) + length (replicate 1000 (1100::int, ''x'')) \<le> 1000"
    by (simp add: demoWorld_facts newSessionData_def)
  from feed_no_trim[OF this, of noMatch] show ?thesis
    by (simp add: fullWorld_def demoWorld_facts newSessionData_def map_replicate)
qed

theorem outputBuffer_bounded_witness:
  "buffersBounded demoWorld
   \<and> buffersBounded (run noMatch [Data 1100 0 ''x''] demoWorld)
   \<and> length (outputBuffer (objs demoWorld 0)) < 1000
   \<and> outputBuffer (objs (onData noMatch 1100 0 ''x'' demoWorld) 0)
       = [\<lparr>data = ''x'', timestamp = 1100\<rparr>]
   \<and> length (outputBuffer (objs fullWorld 0)) = 1000
   \<and> length (outputBuffer (objs (onData noMatch 1100 0 ''x'' fullWorld) 0)) = 800
   \<and> outputBuffer (objs demoWorld 0) = []
   \<and> length (replicate 1500 (1100::int, ''x'')) = 1500
   \<and> length (outputBuffer (objs (run noMatch
        (map (\<lambda>(t, d). Data t 0 d) (take 1001 (replicate 1500 (1100, ''x'')))) demoWorld) 0)) = 800"
proof -
  have bb: "buffersBounded demoWorld"
    by (simp add: buffersBounded_def demoWorld_eq constructor_def blankSession_def
        newSessionData_def)
  have e: "outputBuffer (objs demoWorld 0) = []"
    by (simp add: demoWorld_facts newSessionData_def)
  have f: "length (outputBuffer (objs fullWorld 0)) = 1000"
    by (simp add: fullWorld_buffer)
  have l: "length (replicate 1500 (1100::int, ''x'')) = 1500" by simp
  from outputBuffer_bounded[of demoWorld noMatch "[Data 1100 0 ''x'']" 0 1100 "''x''"
      "replicate 1500 (1100, ''x'')"]
    outputBuffer_bounded[of fullWorld noMatch "[]" 0 1100 "''x''" "[]"]
    bb e f l
  show ?thesis by (simp add: sliceLast_def)
qed

subsection \<open>The idle reaper\<close>

lemma reapKey_sessions [simp]: "sessions (reapKey k w) = AList.delete k (sessions w)"
  by (simp add: reapKey_def Let_def split: option.splits)

lemma reapKey_frame [simp]:
  "nextRef (reapKey k w) = nextRef w"
  "sockets (reapKey k w) = sockets w"
  "timers (reapKey k w) = timers w"
  by (simp_all add: reapKey_def Let_def split: option.splits)

lemma reapKey_objs:
  "objs (reapKey k w) x =
     (if map_of (sessions w) k = Some x
      then (objs w x)\<lparr>ptyProcess := ptyKill DefaultSignal (ptyProcess (objs w x))\<rparr>
      else objs w x)"
  by (auto simp: reapKey_def Let_def split: option.splits)

lemma reapAll_sessions:
  "sessions (foldl (\<lambda>w' key. reapKey key w') w ks)
     = filter (\<lambda>(k, s). k \<notin> set ks) (sessions w)"
proof (induction ks arbitrary: w)
  case Nil
  then show ?case by simp
next
  case (Cons k ks)
  have "filter (\<lambda>(k', s). k' \<notin> set ks) (AList.delete k (sessions w))
          = filter (\<lambda>(k', s). k' \<notin> set (k # ks)) (sessions w)"
    by (auto simp: AList.delete_eq intro!: filter_cong)
  with Cons.IH[of "reapKey k w"] show ?case by simp
qed

lemma reapAll_frame [simp]:
  "nextRef (foldl (\<lambda>w' key. reapKey key w') w ks) = nextRef w"
  "sockets (foldl (\<lambda>w' key. reapKey key w') w ks) = sockets w"
  "timers (foldl (\<lambda>w' key. reapKey key w') w ks) = timers w"
  by (induction ks arbitrary: w; simp)+

lemma reapAll_objs:
  assumes "distinct ks"
    and "\<And>k k' x. map_of (sessions w) k = Some x \<Longrightarrow> map_of (sessions w) k' = Some x \<Longrightarrow> k = k'"
  shows "objs (foldl (\<lambda>w' key. reapKey key w') w ks) x =
     (if \<exists>k \<in> set ks. map_of (sessions w) k = Some x
      then (objs w x)\<lparr>ptyProcess := ptyKill DefaultSignal (ptyProcess (objs w x))\<rparr>
      else objs w x)"
  using assms
proof (induction ks arbitrary: w)
  case Nil
  then show ?case by simp
next
  case (Cons k ks)
  let ?w1 = "reapKey k w"
  have m1: "map_of (sessions ?w1) k' = (if k' = k then None else map_of (sessions w) k')" for k'
    by (simp add: delete_conv)
  have inj1: "\<And>a b y. map_of (sessions ?w1) a = Some y \<Longrightarrow> map_of (sessions ?w1) b = Some y
                \<Longrightarrow> a = b"
    using Cons.prems(2) by (auto simp: delete_conv split: if_splits)
  from Cons.prems(1) have d: "distinct ks" and nk: "k \<notin> set ks" by simp_all
  have ex: "(\<exists>k' \<in> set ks. map_of (sessions ?w1) k' = Some x)
              = (\<exists>k' \<in> set ks. map_of (sessions w) k' = Some x)"
    using nk by (auto simp: delete_conv)
  have excl: "\<not> (map_of (sessions w) k = Some x \<and> (\<exists>k' \<in> set ks. map_of (sessions w) k' = Some x))"
    using Cons.prems(2) nk by blast
  have "objs (foldl (\<lambda>w' key. reapKey key w') ?w1 ks) x =
     (if \<exists>k' \<in> set ks. map_of (sessions w) k' = Some x
      then (objs ?w1 x)\<lparr>ptyProcess := ptyKill DefaultSignal (ptyProcess (objs ?w1 x))\<rparr>
      else objs ?w1 x)"
    using Cons.IH[OF d inj1] by (simp only: ex)
  then show ?case
    using excl by (auto simp: reapKey_objs)
qed

lemma distinct_snd_inj:
  assumes "distinct (map snd xs)" and "(k, x) \<in> set xs" and "(k', x) \<in> set xs"
  shows "k = k'"
proof -
  from assms(1) have "inj_on snd (set xs)" by (simp add: distinct_map)
  from inj_onD[OF this _ assms(2,3)] show ?thesis by simp
qed

lemma wf_inj:
  assumes "wf w" and "map_of (sessions w) k = Some x" and "map_of (sessions w) k' = Some x"
  shows "k = k'"
  using assms distinct_snd_inj[of "sessions w" k x k']
  by (auto simp: wf_def dest!: map_of_SomeD)

lemma inactiveKeys_distinct:
  "distinct (map fst xs) \<Longrightarrow> distinct (map fst (filter Q xs))"
  by (rule distinct_map_filter)

lemma inactiveKeys_mem:
  assumes "distinct (map fst (sessions w))" and "map_of (sessions w) k = Some s"
  shows "k \<in> set (map fst (filter (\<lambda>(key, session). inactive now (objs w session)) (sessions w)))
           = inactive now (objs w s)"
proof
  assume "k \<in> set (map fst (filter (\<lambda>(key, session). inactive now (objs w session)) (sessions w)))"
  then obtain s' where in': "(k, s') \<in> set (sessions w)" and i: "inactive now (objs w s')"
    by auto
  from map_of_is_SomeI[OF assms(1) in'] assms(2) have "s' = s" by simp
  with i show "inactive now (objs w s)" by simp
next
  assume i: "inactive now (objs w s)"
  from map_of_SomeD[OF assms(2)] have "(k, s) \<in> set (sessions w)" .
  with i show "k \<in> set (map fst (filter (\<lambda>(key, session). inactive now (objs w session)) (sessions w)))"
    by force
qed

lemma cleanupInactiveSessions_fold:
  "cleanupInactiveSessions now w
     = foldl (\<lambda>w' key. reapKey key w') w
         (map fst (filter (\<lambda>(key, session). inactive now (objs w session)) (sessions w)))"
  by (simp add: cleanupInactiveSessions_def Let_def)

subsection \<open>The shape of the map\<close>

text \<open>The shape of the map is kept by every operation, so it holds in every reachable state.\<close>

lemma update_fresh: "map_of al k = None \<Longrightarrow> AList.update k v al = al @ [(k, v)]"
  by (induction al) (auto split: if_splits)

lemma wf_delete:
  assumes "wf w"
  shows "wf (w\<lparr>sessions := AList.delete k (sessions w)\<rparr>)"
proof -
  have "set (AList.delete k (sessions w)) \<subseteq> set (sessions w)"
    by (auto simp: AList.delete_eq)
  with assms show ?thesis
    by (auto simp: wf_def distinct_delete AList.delete_eq distinct_map_filter)
qed

lemma wf_frame:
  assumes "wf w" and "sessions w' = sessions w" and "nextRef w' = nextRef w"
  shows "wf w'"
  using assms by (simp add: wf_def)

lemma wf_constructor: "wf constructor"
  by (simp add: wf_def constructor_def)

lemma update_snd_set: "snd ` set (AList.update k v al) \<subseteq> insert v (snd ` set al)"
  by (induction al) auto

lemma update_snd_distinct:
  "distinct (map snd al) \<Longrightarrow> v \<notin> snd ` set al \<Longrightarrow> distinct (map snd (AList.update k v al))"
proof (induction al)
  case Nil
  then show ?case by simp
next
  case (Cons a al)
  from update_snd_set[of k v al] Cons.prems
  have "snd a \<notin> snd ` set (AList.update k v al)" by auto
  with Cons show ?case by auto
qed

lemma wf_resume: "wf w \<Longrightarrow> wf (snd (getOrCreateSession_resume sp now P sid c r w))"
proof (cases sp)
  case SpawnThrows
  assume "wf w"
  with SpawnThrows show ?thesis by (simp add: getOrCreateSession_resume_def)
next
  case (Spawned p)
  assume w: "wf w"
  then have fresh: "nextRef w \<notin> snd ` set (sessions w)"
    by (auto simp: wf_def)
  from w have "distinct (map fst (AList.update (generateSessionKey P) (nextRef w) (sessions w)))"
    by (simp add: wf_def distinct_update)
  moreover from w fresh
  have "distinct (map snd (AList.update (generateSessionKey P) (nextRef w) (sessions w)))"
    by (simp add: wf_def update_snd_distinct)
  moreover
  have "\<forall>session \<in> snd ` set (AList.update (generateSessionKey P) (nextRef w) (sessions w)).
          session < Suc (nextRef w)"
  proof
    fix x
    assume "x \<in> snd ` set (AList.update (generateSessionKey P) (nextRef w) (sessions w))"
    with update_snd_set[of "generateSessionKey P" "nextRef w" "sessions w"]
    have "x = nextRef w \<or> x \<in> snd ` set (sessions w)" by blast
    with w show "x < Suc (nextRef w)" by (force simp: wf_def less_Suc_eq)
  qed
  ultimately show ?thesis
    by (simp add: Spawned getOrCreateSession_resume_def Let_def wf_def)
qed

lemma wf_getOrCreate: "wf w \<Longrightarrow> wf (snd (getOrCreateSession sp now P sid c r w))"
proof (cases "map_of (sessions w) (generateSessionKey P)")
  case (Some s)
  assume "wf w"
  then show ?thesis
    by (rule wf_frame) (simp_all add: getOrCreateSession_reuse[OF Some])
next
  case None
  assume "wf w"
  from wf_resume[OF this] show ?thesis
    by (simp add: getOrCreateSession_def getOrCreateSession_start_none[OF None])
qed

lemma wf_attach: "wf w \<Longrightarrow> wf (snd (attachWebSocket J now P b w))"
  by (erule wf_frame) (simp_all add: attachWebSocket_def Let_def split: option.splits)

lemma wf_detach: "wf w \<Longrightarrow> wf (snd (detachWebSocket now P w))"
  by (erule wf_frame) (simp_all add: detachWebSocket_def Let_def split: option.splits)

lemma wf_write: "wf w \<Longrightarrow> wf (snd (writeToSession now P d w))"
  by (erule wf_frame) (simp_all add: writeToSession_def Let_def split: option.splits)

lemma wf_resize: "wf w \<Longrightarrow> wf (snd (resizeSession now P c r w))"
  by (erule wf_frame) (simp_all add: resizeSession_def Let_def split: option.splits)

lemma wf_status: "wf w \<Longrightarrow> wf (snd (getSessionStatus P w))"
  by (erule wf_frame) (simp_all add: getSessionStatus_def Let_def split: option.splits)

lemma wf_kill: "wf w \<Longrightarrow> wf (snd (killSession P force w))"
proof (cases "map_of (sessions w) (generateSessionKey P)")
  case None
  assume "wf w"
  with None show ?thesis by (simp add: killSession_def)
next
  case (Some s)
  assume "wf w"
  from wf_delete[OF this, of "generateSessionKey P"] show ?thesis
    by (simp add: killSession_def Some Let_def wf_def)
qed

lemma wf_reapKey: "wf w \<Longrightarrow> wf (reapKey k w)"
  using wf_delete[of w k] by (simp add: wf_def)

lemma wf_reap: "wf w \<Longrightarrow> wf (cleanupInactiveSessions now w)"
proof -
  have "wf w' \<Longrightarrow> wf (foldl (\<lambda>w' key. reapKey key w') w' ks)" for w' ks
    by (induction ks arbitrary: w') (simp_all add: wf_reapKey)
  then show "wf w \<Longrightarrow> wf (cleanupInactiveSessions now w)"
    by (simp add: cleanupInactiveSessions_fold)
qed

lemma wf_cleanup: "wf (cleanup w)"
  by (simp add: cleanup_def Let_def wf_def)

lemma wf_onData: "wf w \<Longrightarrow> wf (onData J now s d w)"
  by (erule wf_frame) (simp_all add: onData_def Let_def split: option.splits)

lemma wf_onExit: "wf w \<Longrightarrow> wf (onExit s c w)"
  unfolding onExit_def by (rule wf_delete)

lemma wf_timerFired: "wf w \<Longrightarrow> wf (timerFired t w)"
  by (erule wf_frame) (simp_all add: timerFired_def Let_def)

lemma wf_step: "wf w \<Longrightarrow> wf (step J e w)"
  by (cases e)
     (simp_all add: wf_getOrCreate wf_resume wf_attach wf_detach wf_write wf_resize wf_kill wf_status
        wf_reap wf_cleanup wf_onData wf_onExit wf_timerFired)

lemma wf_run: "wf w \<Longrightarrow> wf (run J evs w)"
  unfolding run_def by (induction evs arbitrary: w) (simp_all add: wf_step)

lemma wf_reachable: "wf (run J evs constructor)"
  by (rule wf_run[OF wf_constructor])

subsection \<open>One sweep of the reaper\<close>

text \<open>
  C5, as the code has it. A session is reaped when it is not connected and its
  \<open>lastActiveAt\<close> is strictly more than two hours (7200000 ms) before the time of the
  sweep. After one sweep, every registered session of that kind is gone from the map (its
  key is free and no key leads to it any more) and \<open>kill()\<close> was called once on its
  process, at once and without the \<open>exit\<close> line of a graceful kill, with the default
  signal of \<open>kill\<close> and not with \<open>SIGKILL\<close>, the signal of a forced kill. Every
  registered session that is connected is still registered under its key and untouched,
  however old its \<open>lastActiveAt\<close>; so is every session that is not old enough.
\<close>

theorem reaper_sweep:
  assumes wf: "wf w" and reg: "map_of (sessions w) k = Some s"
  shows "inactive now (objs w s)
           = (\<not> isConnected (objs w s) \<and> lastActiveAt (objs w s) < now - 7200000)
    \<and> (inactive now (objs w s) \<longrightarrow>
          map_of (sessions (cleanupInactiveSessions now w)) k = None
          \<and> s \<notin> snd ` set (sessions (cleanupInactiveSessions now w))
          \<and> signals (ptyProcess (objs (cleanupInactiveSessions now w) s))
              = signals (ptyProcess (objs w s)) @ [DefaultSignal])
    \<and> (isConnected (objs w s) \<longrightarrow>
          map_of (sessions (cleanupInactiveSessions now w)) k = Some s
          \<and> objs (cleanupInactiveSessions now w) s = objs w s)
    \<and> (\<not> inactive now (objs w s) \<longrightarrow>
          map_of (sessions (cleanupInactiveSessions now w)) k = Some s
          \<and> objs (cleanupInactiveSessions now w) s = objs w s)"
proof -
  define ks where
    "ks = map fst (filter (\<lambda>(key, session). inactive now (objs w session)) (sessions w))"
  define w' where "w' = cleanupInactiveSessions now w"
  have w': "w' = foldl (\<lambda>w' key. reapKey key w') w ks"
    by (simp add: w'_def ks_def cleanupInactiveSessions_fold)
  from wf have dk: "distinct (map fst (sessions w))" by (simp add: wf_def)
  have dks: "distinct ks" unfolding ks_def by (rule inactiveKeys_distinct[OF dk])
  have mem: "k \<in> set ks = inactive now (objs w s)"
    unfolding ks_def by (rule inactiveKeys_mem[OF dk reg])
  have sess: "sessions w' = filter (\<lambda>(k, s). k \<notin> set ks) (sessions w)"
    by (simp add: w' reapAll_sessions)
  have obj: "objs w' x =
     (if \<exists>k \<in> set ks. map_of (sessions w) k = Some x
      then (objs w x)\<lparr>ptyProcess := ptyKill DefaultSignal (ptyProcess (objs w x))\<rparr>
      else objs w x)" for x
    unfolding w' by (rule reapAll_objs[OF dks]) (rule wf_inj[OF wf])
  have ex: "(\<exists>k' \<in> set ks. map_of (sessions w) k' = Some s) = inactive now (objs w s)"
    using mem reg wf_inj[OF wf reg] by blast
  have gone: "map_of (sessions w') k = None \<and> s \<notin> snd ` set (sessions w')"
    if i: "inactive now (objs w s)"
  proof
    from i mem have "k \<in> set ks" by simp
    then show "map_of (sessions w') k = None"
      by (auto simp: sess map_of_eq_None_iff)
    show "s \<notin> snd ` set (sessions w')"
    proof
      assume "s \<in> snd ` set (sessions w')"
      then obtain k' where in': "(k', s) \<in> set (sessions w)" and nk: "k' \<notin> set ks"
        by (auto simp: sess)
      from map_of_is_SomeI[OF dk in'] have "map_of (sessions w) k' = Some s" .
      from wf_inj[OF wf reg this] nk \<open>k \<in> set ks\<close> show False by simp
    qed
  qed
  have kept: "map_of (sessions w') k = Some s \<and> objs w' s = objs w s"
    if ni: "\<not> inactive now (objs w s)"
  proof
    from ni mem have "k \<notin> set ks" by simp
    with reg show "map_of (sessions w') k = Some s"
      unfolding sess by (intro map_of_filter_in) simp_all
    from ni ex show "objs w' s = objs w s" by (simp add: obj)
  qed
  have killed: "signals (ptyProcess (objs w' s)) = signals (ptyProcess (objs w s)) @ [DefaultSignal]"
    if i: "inactive now (objs w s)"
    using i ex by (simp add: obj ptyKill_def)
  have conn: "isConnected (objs w s) \<Longrightarrow> \<not> inactive now (objs w s)"
    by (simp add: inactive_def)
  show ?thesis
    unfolding w'_def[symmetric]
    using gone kept killed conn by (auto simp: inactive_def)
qed

lemma key_proj_b: "generateSessionKey ''/proj/b'' = ''project-_proj_b''"
  by (simp add: generateSessionKey_def replaceSeparators_def)

lemma twoWorld_facts:
  "sessions twoWorld = [(''project-_proj_a'', 0), (''project-_proj_b'', 1)]"
  "nextRef twoWorld = 2"
  "objs twoWorld 0 = newSessionData 4242 1000 ''/proj/a'' None (Num 80) (Num 24)"
  "objs twoWorld (Suc 0) = (newSessionData 4243 1000 ''/proj/b'' None (Num 80) (Num 24))
      \<lparr>isConnected := True, currentWs := Some 7, lastActiveAt := 2000\<rparr>"
  by (simp_all add: twoWorld_def attachWebSocket_def getOrCreateSession_def getOrCreateSession_start_def getOrCreateSession_resume_def key_proj_b
      demoWorld_facts Let_def newSessionData_def replayRecentOutput_def)

theorem reaper_sweep_witness:
  "wf twoWorld
   \<and> map_of (sessions twoWorld) ''project-_proj_a'' = Some 0
   \<and> \<not> isConnected (objs twoWorld 0)
   \<and> lastActiveAt (objs twoWorld 0) < 10000000 - 7200000
   \<and> map_of (sessions (cleanupInactiveSessions 10000000 twoWorld)) ''project-_proj_a'' = None
   \<and> signals (ptyProcess (objs (cleanupInactiveSessions 10000000 twoWorld) 0)) = [DefaultSignal]
   \<and> map_of (sessions twoWorld) ''project-_proj_b'' = Some 1
   \<and> isConnected (objs twoWorld 1)
   \<and> lastActiveAt (objs twoWorld 1) < 10000000 - 7200000
   \<and> map_of (sessions (cleanupInactiveSessions 10000000 twoWorld)) ''project-_proj_b'' = Some 1
   \<and> signals (ptyProcess (objs (cleanupInactiveSessions 10000000 twoWorld) 1)) = []"
proof -
  have wf: "wf twoWorld"
    by (simp add: wf_def twoWorld_facts)
  have ra: "map_of (sessions twoWorld) ''project-_proj_a'' = Some 0"
    and rb: "map_of (sessions twoWorld) ''project-_proj_b'' = Some 1"
    by (simp_all add: twoWorld_facts)
  have a: "\<not> isConnected (objs twoWorld 0)" "lastActiveAt (objs twoWorld 0) < 10000000 - 7200000"
    "signals (ptyProcess (objs twoWorld 0)) = []"
    by (simp_all add: twoWorld_facts newSessionData_def)
  have b: "isConnected (objs twoWorld 1)" "lastActiveAt (objs twoWorld 1) < 10000000 - 7200000"
    "signals (ptyProcess (objs twoWorld 1)) = []"
    by (simp_all add: twoWorld_facts newSessionData_def)
  from reaper_sweep[OF wf ra, of 10000000] reaper_sweep[OF wf rb, of 10000000] wf ra rb a b
  show ?thesis by simp
qed

text \<open>
  C5 as stated fails on the kind of kill. In \<open>twoWorld\<close> the session for \<open>/proj/a\<close> has
  no transport and was last active at time 1000. The sweep at time 10000000 removes it from
  the map, and the only signal its process was sent is the default one of \<open>kill()\<close>:
  \<open>SIGKILL\<close>, which is what a forced kill sends, is not among the signals.
\<close>

theorem reaper_signal_counterexample:
  "wf twoWorld
   \<and> map_of (sessions twoWorld) ''project-_proj_a'' = Some 0
   \<and> \<not> isConnected (objs twoWorld 0)
   \<and> lastActiveAt (objs twoWorld 0) < 10000000 - 7200000
   \<and> map_of (sessions (cleanupInactiveSessions 10000000 twoWorld)) ''project-_proj_a'' = None
   \<and> signals (ptyProcess (objs (cleanupInactiveSessions 10000000 twoWorld) 0)) = [DefaultSignal]
   \<and> SIGKILL \<notin> set (signals (ptyProcess (objs (cleanupInactiveSessions 10000000 twoWorld) 0)))"
  by (simp add: wf_def cleanupInactiveSessions_def reapKey_def inactive_def twoWorld_facts
      newSessionData_def ptyKill_def Let_def updSession_def)

subsection \<open>Detaching keeps the session\<close>

lemma detachWebSocket_found:
  assumes "map_of (sessions w) (generateSessionKey P) = Some s"
  shows "detachWebSocket now P w =
           (True, updSession s
              (\<lambda>x. x\<lparr>isConnected := False, currentWs := None, lastActiveAt := now\<rparr>) w)"
  using assms by (simp add: detachWebSocket_def)






text \<open>
  \<open>detachWebSocket\<close> takes a path, not a socket. The \<open>close\<close> handler of a socket in
  \<^verbatim>\<open>server/index.js\<close> calls it with the path of the socket's session, also when that
  socket was replaced by another one: the session is then left with no transport although
  the new socket is as open as it was.
\<close>

lemma detach_after_replacement:
  assumes reg: "map_of (sessions w) (generateSessionKey P) = Some s"
    and bound: "isConnected (objs w s)"
    and cur: "currentWs (objs w s) = Some a"
    and neq: "a \<noteq> b"
  shows "\<not> isConnected (objs (snd (detachWebSocket t' P (snd (attachWebSocket J t P b w)))) s)"
    and "currentWs (objs (snd (detachWebSocket t' P (snd (attachWebSocket J t P b w)))) s) = None"
    and "readyState (sockets (snd (detachWebSocket t' P (snd (attachWebSocket J t P b w)))) b)
           = readyState (sockets w b)"
proof -
  define w1 where "w1 = snd (attachWebSocket J t P b w)"
  have reg1: "map_of (sessions w1) (generateSessionKey P) = Some s"
    using reg by (simp add: w1_def attachWebSocket_bound[OF reg bound cur])
  have r1: "readyState (sockets w1 b) = readyState (sockets w b)"
    using neq by (simp add: w1_def attachWebSocket_bound[OF reg bound cur])
  note d = detachWebSocket_found[OF reg1, of t']
  show "\<not> isConnected (objs (snd (detachWebSocket t' P (snd (attachWebSocket J t P b w)))) s)"
    and "currentWs (objs (snd (detachWebSocket t' P (snd (attachWebSocket J t P b w)))) s) = None"
    and "readyState (sockets (snd (detachWebSocket t' P (snd (attachWebSocket J t P b w)))) b)
           = readyState (sockets w b)"
    unfolding w1_def[symmetric] by (simp_all add: d r1)
qed

subsection \<open>Status is an observation\<close>

lemma getSessionStatus_state: "snd (getSessionStatus P w) = w"
  by (simp add: getSessionStatus_def Let_def split: option.splits)

lemma run_status: "run J (map Status Ps) w = w"
  unfolding run_def by (induction Ps) (simp_all add: getSessionStatus_state)

text \<open>
  C10. \<open>getSessionStatus\<close> leaves the state as it is: the map, every session object (so
  also every \<open>lastActiveAt\<close>), the sockets and the timers. Any number of status queries,
  for any paths, therefore changes nothing, and the reaper removes after them exactly what
  it would have removed without them. For a key with no session the result is
  \<open>{exists: false, sessionKey}\<close>; for a registered session it reports the stored
  \<open>lastActiveAt\<close>, connection flag, pid and buffer length.
\<close>

theorem getSessionStatus_observes:
  "snd (getSessionStatus P w) = w
   \<and> run J (map Status Ps) w = w
   \<and> cleanupInactiveSessions now (run J (map Status Ps) w) = cleanupInactiveSessions now w
   \<and> (map_of (sessions w) (generateSessionKey P) = None \<longrightarrow>
        fst (getSessionStatus P w) = Missing (generateSessionKey P)
        \<and> \<not> statusExists (fst (getSessionStatus P w)))
   \<and> (map_of (sessions w) (generateSessionKey P) = Some s \<longrightarrow>
        statusExists (fst (getSessionStatus P w))
        \<and> lastActiveAt (objs (snd (getSessionStatus P w)) s) = lastActiveAt (objs w s)
        \<and> inactive now (objs (snd (getSessionStatus P w)) s) = inactive now (objs w s)
        \<and> (\<exists>i. fst (getSessionStatus P w) = Found i
               \<and> stLastActiveAt i = lastActiveAt (objs w s)
               \<and> stIsConnected i = isConnected (objs w s)
               \<and> stProcessId i = pid (ptyProcess (objs w s))
               \<and> stBufferSize i = length (outputBuffer (objs w s))))"
  by (simp add: getSessionStatus_state run_status)
     (auto simp: getSessionStatus_def statusExists_def Let_def)

theorem getSessionStatus_observes_witness:
  "map_of (sessions demoWorld) (generateSessionKey ''/nowhere'') = None
   \<and> fst (getSessionStatus ''/nowhere'' demoWorld) = Missing ''project-_nowhere''
   \<and> snd (getSessionStatus ''/nowhere'' demoWorld) = demoWorld
   \<and> map_of (sessions demoWorld) (generateSessionKey ''/proj/a'') = Some 0
   \<and> statusExists (fst (getSessionStatus ''/proj/a'' demoWorld))
   \<and> lastActiveAt (objs (snd (getSessionStatus ''/proj/a'' demoWorld)) 0) = 1000
   \<and> cleanupInactiveSessions 10000000
        (run noMatch (map Status [''/proj/a'', ''/proj/a'', ''/nowhere'']) demoWorld)
       = cleanupInactiveSessions 10000000 demoWorld"
proof -
  have k: "generateSessionKey ''/nowhere'' = ''project-_nowhere''"
    by (simp add: generateSessionKey_def replaceSeparators_def)
  have h1: "map_of (sessions demoWorld) (generateSessionKey ''/nowhere'') = None"
    by (simp add: k demoWorld_facts)
  have h2: "map_of (sessions demoWorld) (generateSessionKey ''/proj/a'') = Some 0"
    by (simp add: key_proj_a demoWorld_facts)
  have l: "lastActiveAt (objs demoWorld 0) = 1000"
    by (simp add: demoWorld_facts newSessionData_def)
  from getSessionStatus_observes[of "''/nowhere''" demoWorld noMatch
      "[''/proj/a'', ''/proj/a'', ''/nowhere'']" 10000000 0]
    getSessionStatus_observes[of "''/proj/a''" demoWorld noMatch "[]" 10000000 0]
    h1 h2 l k
  show ?thesis by simp
qed

subsection \<open>Terminating a session\<close>

text \<open>
  What \<open>killSession\<close> does: with no session under the key it returns \<open>true\<close> and
  changes nothing; a graceful kill writes the \<open>exit\<close> line, arms a timer of 5000 ms and
  removes the entry at once; a forced kill sends \<open>SIGKILL\<close> and removes the entry.
\<close>

lemma killSession_missing:
  "map_of (sessions w) (generateSessionKey P) = None \<Longrightarrow> killSession P force w = (True, w)"
  by (simp add: killSession_def)

lemma killSession_graceful:
  assumes "map_of (sessions w) (generateSessionKey P) = Some s"
  shows "fst (killSession P False w)"
    and "written (ptyProcess (objs (snd (killSession P False w)) s))
           = written (ptyProcess (objs w s)) @ [exitLine]"
    and "signals (ptyProcess (objs (snd (killSession P False w)) s))
           = signals (ptyProcess (objs w s))"
    and "map_of (sessions (snd (killSession P False w))) (generateSessionKey P) = None"
    and "timers (snd (killSession P False w))
           = timers w @ [\<lparr>delay = 5000, timerKey = generateSessionKey P, timerSession = s\<rparr>]"
  using assms
  by (simp_all add: killSession_def Let_def ptyWrite_def map_of_delete_same)

lemma killSession_forced:
  assumes "map_of (sessions w) (generateSessionKey P) = Some s"
  shows "signals (ptyProcess (objs (snd (killSession P True w)) s))
           = signals (ptyProcess (objs w s)) @ [SIGKILL]"
    and "map_of (sessions (snd (killSession P True w))) (generateSessionKey P) = None"
    and "timers (snd (killSession P True w)) = timers w"
  using assms
  by (simp_all add: killSession_def Let_def ptyKill_def map_of_delete_same)

lemma timerFired_unregistered:
  "map_of (sessions w) (timerKey t) = None \<Longrightarrow> objs (timerFired t w) = objs w"
  by (simp add: timerFired_def Let_def)

lemma graceful_kill_timer_idle:
  assumes "map_of (sessions w) (generateSessionKey P) = Some s"
  shows "signals (ptyProcess (objs
           (timerFired \<lparr>delay = 5000, timerKey = generateSessionKey P, timerSession = s\<rparr>
              (snd (killSession P False w))) s))
         = signals (ptyProcess (objs w s))"
  using assms
  by (simp add: timerFired_def killSession_def Let_def ptyWrite_def map_of_delete_same)

text \<open>
  C6. The graceful kill does not escalate. In \<open>demoWorld\<close> the session for \<open>/proj/a\<close>
  is registered. \<open>killSession('/proj/a', false)\<close> returns \<open>true\<close>, writes the \<open>exit\<close>
  line to the process, empties the map and leaves one timer of 5000 ms pending. When that
  timer fires, its callback finds the key absent from the map (the call removed it) and
  does not call \<open>kill\<close>: no signal was ever sent to the process, and no timer is left.
  (A forced kill, by contrast, sends \<open>SIGKILL\<close>.) The lemma \<open>graceful_kill_timer_idle\<close>
  above shows the same for every state and every registered path.
\<close>

theorem graceful_kill_never_escalates:
  "map_of (sessions demoWorld) (generateSessionKey ''/proj/a'') = Some 0
   \<and> fst (killSession ''/proj/a'' False demoWorld)
   \<and> written (ptyProcess (objs (snd (killSession ''/proj/a'' False demoWorld)) 0)) = [exitLine]
   \<and> sessions (snd (killSession ''/proj/a'' False demoWorld)) = []
   \<and> timers (snd (killSession ''/proj/a'' False demoWorld))
       = [\<lparr>delay = 5000, timerKey = ''project-_proj_a'', timerSession = 0\<rparr>]
   \<and> signals (ptyProcess (objs (snd (killSession ''/proj/a'' False demoWorld)) 0)) = []
   \<and> signals (ptyProcess (objs
        (timerFired \<lparr>delay = 5000, timerKey = ''project-_proj_a'', timerSession = 0\<rparr>
           (snd (killSession ''/proj/a'' False demoWorld))) 0)) = []
   \<and> timers (timerFired \<lparr>delay = 5000, timerKey = ''project-_proj_a'', timerSession = 0\<rparr>
        (snd (killSession ''/proj/a'' False demoWorld))) = []
   \<and> signals (ptyProcess (objs (snd (killSession ''/proj/a'' True demoWorld)) 0)) = [SIGKILL]"
  by (simp add: killSession_def timerFired_def key_proj_a demoWorld_facts Let_def
      newSessionData_def ptyWrite_def ptyKill_def)

subsection \<open>Process exit\<close>

lemma onExit_frame:
  "objs (onExit s c w) = objs w"
  "sockets (onExit s c w) = sockets w"
  "timers (onExit s c w) = timers w"
  "nextRef (onExit s c w) = nextRef w"
  "map_of (sessions (onExit s c w)) (generateSessionKey (projectPath (objs w s))) = None"
  by (simp_all add: onExit_def map_of_delete_same)

text \<open>
  C8. In \<open>boundWorld\<close> the session for \<open>/proj/a\<close> is bound to the open socket \<open>7\<close>,
  which has received nothing. When the process exits with code 1, \<open>onExit\<close> removes the
  entry from the map, and that is all: the socket has still received nothing and is still
  open. The lemma \<open>onExit_frame\<close> above shows that in every state \<open>onExit\<close> changes
  neither a socket nor a session object.
\<close>

theorem exit_not_reported:
  "map_of (sessions boundWorld) (generateSessionKey ''/proj/a'') = Some 0
   \<and> isConnected (objs boundWorld 0)
   \<and> currentWs (objs boundWorld 0) = Some 7
   \<and> sockets boundWorld 7 = \<lparr>readyState = OPEN, sent = []\<rparr>
   \<and> sessions (onExit 0 1 boundWorld) = []
   \<and> sockets (onExit 0 1 boundWorld) 7 = \<lparr>readyState = OPEN, sent = []\<rparr>
   \<and> sockets (onExit 0 1 boundWorld) = sockets boundWorld"
  by (simp add: onExit_def key_proj_a boundWorld_facts newSessionData_def)

end
